theory Spec2Isabelle
  imports Complex_Main "HOL-Library.Char_ord" "HOL-Library.List_Lexorder"
begin

unbundle bit_operations_syntax

section \<open>JavaScript values and parsed JSON bodies\<close>

text \<open>
  The webhook handler works on whatever \<^verbatim>\<open>request.json()\<close> returns, so the fields of a
  payload are JavaScript values, not the types its TypeScript interface declares. A number
  is \<open>NaN\<close> or a finite real: the rounding of IEEE doubles and overflow to an infinity are
  not modelled. Field values are the JSON primitives together with \<open>undefined\<close> (what
  reading an absent property gives); nested arrays and objects as field values are outside
  the model. An object is the list of its properties in insertion order, with distinct keys.
\<close>

datatype jsnum = NaN | Fin real

datatype jsval = JUndefined | JNull | JBool bool | JNum jsnum | JStr string

type_synonym jsobject = "(string \<times> jsval) list"

datatype error = Error string | TypeError string | RangeError string | SyntaxError string

fun message :: "error \<Rightarrow> string" where
  "message (Error m) = m"
| "message (TypeError m) = m"
| "message (RangeError m) = m"
| "message (SyntaxError m) = m"

record order_result =
  orderId :: string
  executedPrice :: jsval
  executedQuantity :: jsval

text \<open>
  What the code takes from its runtime and its collaborators: number formatting and
  parsing of the language, the primitives of Node's \<^verbatim>\<open>crypto\<close> module, the process
  environment, the local time zone and the external order executor.
\<close>

record env =
  numberToString :: "real \<Rightarrow> string"
  stringToNumber :: "string \<Rightarrow> jsnum"
  hmacSha256Hex :: "string \<Rightarrow> string \<Rightarrow> string"
  sha256Hex :: "string \<Rightarrow> string"
  WEBHOOK_ENCRYPTION_KEY :: "string option"
  hexDecode :: "string \<Rightarrow> string"
  aesGcmDecrypt :: "string \<Rightarrow> string \<Rightarrow> string \<Rightarrow> string \<Rightarrow> error + string"
  executeOrder :: "jsobject \<Rightarrow> string \<Rightarrow> error + order_result"
  startOfLocalDay :: "int \<Rightarrow> int"

definition get_prop :: "jsobject \<Rightarrow> string \<Rightarrow> jsval" where
  "get_prop obj k = (case map_of obj k of None \<Rightarrow> JUndefined | Some v \<Rightarrow> v)"

definition object_keys :: "jsobject \<Rightarrow> string list" where
  "object_keys obj = map fst obj"

fun truthy :: "jsval \<Rightarrow> bool" where
  "truthy JUndefined = False"
| "truthy JNull = False"
| "truthy (JBool b) = b"
| "truthy (JNum NaN) = False"
| "truthy (JNum (Fin x)) = (x \<noteq> 0)"
| "truthy (JStr s) = (s \<noteq> [])"

fun to_number :: "env \<Rightarrow> jsval \<Rightarrow> jsnum" where
  "to_number E JUndefined = NaN"
| "to_number E JNull = Fin 0"
| "to_number E (JBool b) = Fin (if b then 1 else 0)"
| "to_number E (JNum n) = n"
| "to_number E (JStr s) = stringToNumber E s"

fun to_string :: "env \<Rightarrow> jsval \<Rightarrow> string" where
  "to_string E JUndefined = ''undefined''"
| "to_string E JNull = ''null''"
| "to_string E (JBool b) = (if b then ''true'' else ''false'')"
| "to_string E (JNum NaN) = ''NaN''"
| "to_string E (JNum (Fin x)) = numberToString E x"
| "to_string E (JStr s) = s"

fun num_mul :: "jsnum \<Rightarrow> jsnum \<Rightarrow> jsnum" where
  "num_mul (Fin x) (Fin y) = Fin (x * y)"
| "num_mul _ _ = NaN"

fun num_sub :: "jsnum \<Rightarrow> jsnum \<Rightarrow> jsnum" where
  "num_sub (Fin x) (Fin y) = Fin (x - y)"
| "num_sub _ _ = NaN"

fun num_add :: "jsnum \<Rightarrow> jsnum \<Rightarrow> jsnum" where
  "num_add (Fin x) (Fin y) = Fin (x + y)"
| "num_add _ _ = NaN"

fun num_abs :: "jsnum \<Rightarrow> jsnum" where
  "num_abs (Fin x) = Fin \<bar>x\<bar>"
| "num_abs NaN = NaN"

text \<open>Comparisons with \<open>NaN\<close> are false, whichever side it is on.\<close>

fun num_gt :: "jsnum \<Rightarrow> jsnum \<Rightarrow> bool" where
  "num_gt (Fin x) (Fin y) = (x > y)"
| "num_gt _ _ = False"

fun num_lt :: "jsnum \<Rightarrow> jsnum \<Rightarrow> bool" where
  "num_lt (Fin x) (Fin y) = (x < y)"
| "num_lt _ _ = False"

fun num_le :: "jsnum \<Rightarrow> jsnum \<Rightarrow> bool" where
  "num_le (Fin x) (Fin y) = (x \<le> y)"
| "num_le _ _ = False"

fun join :: "string \<Rightarrow> string list \<Rightarrow> string" where
  "join sep [] = []"
| "join sep [x] = x"
| "join sep (x # y # ys) = x @ sep @ join sep (y # ys)"

text \<open>\<^verbatim>\<open>s.split(sep)\<close> for a one-character separator: always at least one part.\<close>

fun str_split :: "char \<Rightarrow> string \<Rightarrow> string list" where
  "str_split sep [] = [[]]"
| "str_split sep (c # cs) =
     (if c = sep then [] # str_split sep cs
      else (case str_split sep cs of p # ps \<Rightarrow> (c # p) # ps | [] \<Rightarrow> [[c]]))"

text \<open>\<^verbatim>\<open>s.includes(t)\<close>: \<open>t\<close> occurs in \<open>s\<close> as a contiguous run.\<close>

fun starts_with :: "string \<Rightarrow> string \<Rightarrow> bool" where
  "starts_with s [] = True"
| "starts_with [] (t # ts) = False"
| "starts_with (c # cs) (t # ts) = (c = t \<and> starts_with cs ts)"

fun str_includes :: "string \<Rightarrow> string \<Rightarrow> bool" where
  "str_includes [] t = (t = [])"
| "str_includes (c # cs) t = (starts_with (c # cs) t \<or> str_includes cs t)"

section \<open>Signature verification (webhookCrypto.ts, webhookAuth.ts)\<close>

text \<open>\<^verbatim>\<open>createSignatureMessage\<close> of webhookAuth.ts: sorted keys, \<open>key=value\<close>, joined by \<open>&\<close>.\<close>

definition createSignatureMessage :: "env \<Rightarrow> jsobject \<Rightarrow> string" where
  "createSignatureMessage E data =
     (let sortedKeys = sort (object_keys data);
          values = map (\<lambda>key. key @ ''='' @ to_string E (get_prop data key)) sortedKeys
      in join ''&'' values)"

text \<open>
  \<^verbatim>\<open>timingSafeEqual\<close> of webhookAuth.ts: the length check first, then the OR of the XORs
  of the code units over the whole length.
\<close>

definition timingSafeEqual :: "string \<Rightarrow> string \<Rightarrow> bool" where
  "timingSafeEqual a b =
     (if length a \<noteq> length b then False
      else fold (\<lambda>i result. result OR ((of_char (a ! i) :: nat) XOR of_char (b ! i)))
             [0 ..< length a] 0 = 0)"

text \<open>
  The message that \<^verbatim>\<open>verifyHmacSignature\<close> signs: the payload without its \<open>signature\<close>
  property, canonicalised as above.
\<close>

definition dataToSign :: "jsobject \<Rightarrow> jsobject" where
  "dataToSign payload = filter (\<lambda>kv. fst kv \<noteq> ''signature'') payload"

definition signedMessage :: "env \<Rightarrow> jsobject \<Rightarrow> string" where
  "signedMessage E payload =
     (let data = dataToSign payload;
          sortedKeys = sort (object_keys data)
      in join ''&'' (map (\<lambda>key. key @ ''='' @ to_string E (get_prop data key)) sortedKeys))"

text \<open>
  \<^verbatim>\<open>Buffer.from(v)\<close> accepts a string (its UTF-8 bytes; a \<open>string\<close> here is that byte
  list) and throws a TypeError on \<open>undefined\<close>, \<open>null\<close>, a number or a boolean.
  Node's \<^verbatim>\<open>crypto.timingSafeEqual\<close> throws a RangeError when the two buffers differ in
  byte length and otherwise tells whether they are equal.
\<close>

fun buffer_from :: "jsval \<Rightarrow> error + string" where
  "buffer_from (JStr s) = Inr s"
| "buffer_from v = Inl (TypeError ''The first argument must be of type string'')"

definition crypto_timingSafeEqual :: "string \<Rightarrow> string \<Rightarrow> error + bool" where
  "crypto_timingSafeEqual a b =
     (if length a \<noteq> length b
      then Inl (RangeError ''Input buffers must have the same byte length'')
      else Inr (a = b))"

definition verifyHmacSignature :: "env \<Rightarrow> jsobject \<Rightarrow> jsval \<Rightarrow> string \<Rightarrow> error + bool" where
  "verifyHmacSignature E payload signature secret =
     (let expectedSignature = hmacSha256Hex E secret (signedMessage E payload)
      in case buffer_from signature of
           Inl e \<Rightarrow> Inl e
         | Inr sigBytes \<Rightarrow> crypto_timingSafeEqual sigBytes expectedSignature)"

text \<open>\<^verbatim>\<open>getEncryptionKey\<close> and \<^verbatim>\<open>decryptApiSecret\<close> of webhookCrypto.ts.\<close>

definition getEncryptionKey :: "env \<Rightarrow> error + string" where
  "getEncryptionKey E =
     (case WEBHOOK_ENCRYPTION_KEY E of
        None \<Rightarrow> Inl (Error ''WEBHOOK_ENCRYPTION_KEY environment variable is required'')
      | Some key \<Rightarrow>
          if key = [] then Inl (Error ''WEBHOOK_ENCRYPTION_KEY environment variable is required'')
          else let keyBuffer = hexDecode E key
               in if length keyBuffer \<noteq> 32
                  then Inl (Error ''WEBHOOK_ENCRYPTION_KEY must be 32 bytes (64 hex characters)'')
                  else Inr keyBuffer)"

definition decryptApiSecret :: "env \<Rightarrow> string \<Rightarrow> error + string" where
  "decryptApiSecret E encryptedData =
     (case getEncryptionKey E of
        Inl e \<Rightarrow> Inl e
      | Inr key \<Rightarrow>
          (case str_split CHR '':'' encryptedData of
             [ivHex, encrypted, authTagHex] \<Rightarrow> aesGcmDecrypt E key ivHex encrypted authTagHex
           | _ \<Rightarrow> Inl (Error ''Invalid encrypted data format'')))"

section \<open>The store (client.ts, the migrations)\<close>

text \<open>
  The three tables are lists of rows. The store is taken to be reachable and configured
  (\<^verbatim>\<open>getServiceSupabase\<close> does not throw and queries do not fail for reasons of their
  own); the errors the code reacts to by name, the not-exactly-one-row error of
  \<^verbatim>\<open>.single()\<close> and the unique violation 23505, are modelled. One request sees one
  clock value \<open>now\<close>, in milliseconds.
\<close>

record webhookDB =
  row_id :: string
  user_id :: string
  api_key :: string
  api_key_hash :: "string option"
  encrypted_secret :: "string option"
  row_enabled :: bool
  allowed_symbols :: "string list"
  max_order_size :: "real option"
  daily_limit :: "real option"
  require_stop_loss :: bool

datatype log_status = success | failed

record webhookLogDB =
  webhook_id :: string
  request_payload :: jsobject
  response_payload :: jsobject
  order_id :: "string option"
  status :: log_status
  error_message :: "string option"
  created_at :: int

datatype window_type = minute | hour | day

record rateLimitDB =
  rl_user_id :: string
  rl_api_key :: string
  rl_window_type :: window_type
  window_start :: int
  request_count :: int

record state =
  webhooks :: "webhookDB list"
  webhook_logs :: "webhookLogDB list"
  rate_limits :: "rateLimitDB list"
  orders :: "(jsobject \<times> string) list"

text \<open>\<^verbatim>\<open>.single()\<close>: the row when exactly one row is selected, an error (no data) otherwise.\<close>

definition single :: "'a list \<Rightarrow> 'a option" where
  "single rows = (case rows of [r] \<Rightarrow> Some r | _ \<Rightarrow> None)"

section \<open>Webhook configurations (webhookDatabase.ts)\<close>

record webhookConfig =
  cfg_id :: string
  userId :: string
  apiKey :: string
  encryptedSecret :: "string option"
  enabled :: bool
  allowedSymbols :: "string list"
  maxOrderSize :: jsnum
  dailyLimit :: jsnum
  requireStopLoss :: bool

text \<open>\<^verbatim>\<open>Number(x)\<close> on a DECIMAL column: a NULL becomes 0.\<close>

definition Number_of :: "real option \<Rightarrow> jsnum" where
  "Number_of x = (case x of None \<Rightarrow> Fin 0 | Some v \<Rightarrow> Fin v)"

definition toWebhookConfig :: "webhookDB \<Rightarrow> webhookConfig" where
  "toWebhookConfig db =
     \<lparr> cfg_id = row_id db,
       userId = user_id db,
       apiKey = api_key db,
       encryptedSecret =
         (case encrypted_secret db of None \<Rightarrow> None | Some s \<Rightarrow> if s = [] then None else Some s),
       enabled = row_enabled db,
       allowedSymbols = allowed_symbols db,
       maxOrderSize = Number_of (max_order_size db),
       dailyLimit = Number_of (daily_limit db),
       requireStopLoss = require_stop_loss db \<rparr>"

text \<open>\<^verbatim>\<open>getWebhookByApiKey\<close>: \<^verbatim>\<open>.eq("api_key", apiKey).single()\<close> on the webhooks table.\<close>

definition getWebhookByApiKey :: "state \<Rightarrow> string \<Rightarrow> webhookConfig option" where
  "getWebhookByApiKey st k =
     (case single (filter (\<lambda>r. api_key r = k) (webhooks st)) of
        None \<Rightarrow> None
      | Some data \<Rightarrow> Some (toWebhookConfig data))"

definition getUserFromApiKey :: "state \<Rightarrow> string \<Rightarrow> webhookConfig option" where
  "getUserFromApiKey st k = getWebhookByApiKey st k"

definition hashApiKey :: "env \<Rightarrow> string \<Rightarrow> string" where
  "hashApiKey E k = sha256Hex E k"

text \<open>
  Resolution as the specification words it, to compare with \<^verbatim>\<open>getWebhookByApiKey\<close>:
  the stored credential is found by equality on the lookup hash of the public identifier.
\<close>

definition spec_resolve :: "env \<Rightarrow> state \<Rightarrow> string \<Rightarrow> webhookConfig option" where
  "spec_resolve E st publicId =
     (case single (filter (\<lambda>r. api_key_hash r = Some (hashApiKey E publicId)) (webhooks st)) of
        None \<Rightarrow> None
      | Some data \<Rightarrow> Some (toWebhookConfig data))"

text \<open>
  \<^verbatim>\<open>logWebhookExecution\<close>: the insert into \<open>webhook_logs\<close>. The update of the webhook's
  \<open>execution_count\<close> and \<open>last_execution_at\<close> that follows it touches no column that this
  development reads and is left out.
\<close>

definition logWebhookExecution ::
  "int \<Rightarrow> string \<Rightarrow> jsobject \<Rightarrow> jsobject \<Rightarrow> log_status \<Rightarrow> string option \<Rightarrow> string option
   \<Rightarrow> state \<Rightarrow> state" where
  "logWebhookExecution now webhookId req resp st_kind oid err st =
     st\<lparr> webhook_logs := webhook_logs st @
          [\<lparr> webhook_id = webhookId, request_payload = req, response_payload = resp,
             order_id = oid, status = st_kind, error_message = err, created_at = now \<rparr>] \<rparr>"

text \<open>\<^verbatim>\<open>a || b\<close> on values.\<close>

definition js_or :: "jsval \<Rightarrow> jsval \<Rightarrow> jsval" where
  "js_or a b = (if truthy a then a else b)"

record dailyLimitStatus =
  withinLimit :: bool
  currentUsage :: jsnum
  usageLimit :: jsnum

definition log_notional :: "env \<Rightarrow> webhookLogDB \<Rightarrow> jsnum" where
  "log_notional E l =
     (let quantity = js_or (get_prop (request_payload l) ''quantity'') (JNum (Fin 0));
          price = js_or (get_prop (request_payload l) ''price'') (JNum (Fin 0))
      in num_mul (to_number E quantity) (to_number E price))"

definition checkDailyLimit :: "env \<Rightarrow> int \<Rightarrow> state \<Rightarrow> string \<Rightarrow> dailyLimitStatus" where
  "checkDailyLimit E now st webhookId =
     (case single (filter (\<lambda>r. row_id r = webhookId) (webhooks st)) of
        None \<Rightarrow> \<lparr> withinLimit = False, currentUsage = Fin 0, usageLimit = Fin 0 \<rparr>
      | Some webhook \<Rightarrow>
          (let today = startOfLocalDay E now;
               logs = filter (\<lambda>l. webhook_id l = webhookId \<and> status l = success
                                   \<and> created_at l \<ge> today) (webhook_logs st);
               usage = fold (\<lambda>l acc. num_add acc (log_notional E l)) logs (Fin 0)
           in \<lparr> withinLimit = num_lt usage (Number_of (daily_limit webhook)),
                currentUsage = usage,
                usageLimit = Number_of (daily_limit webhook) \<rparr>))"

section \<open>The rate limiter (rateLimiter.ts)\<close>

record rateLimitConfig =
  maxRequestsPerMinute :: int
  maxRequestsPerHour :: int
  maxRequestsPerDay :: int

definition DEFAULT_RATE_LIMITS :: rateLimitConfig where
  "DEFAULT_RATE_LIMITS =
     \<lparr> maxRequestsPerMinute = 10, maxRequestsPerHour = 100, maxRequestsPerDay = 1000 \<rparr>"

record window =
  wtype :: window_type
  duration :: int
  limit :: int

definition windows :: "rateLimitConfig \<Rightarrow> window list" where
  "windows config =
     [ \<lparr> wtype = minute, duration = 60 * 1000, limit = maxRequestsPerMinute config \<rparr>,
       \<lparr> wtype = hour, duration = 60 * 60 * 1000, limit = maxRequestsPerHour config \<rparr>,
       \<lparr> wtype = day, duration = 24 * 60 * 60 * 1000, limit = maxRequestsPerDay config \<rparr> ]"

text \<open>The filter shared by the select and the update of one window.\<close>

definition in_window :: "string \<Rightarrow> string \<Rightarrow> window_type \<Rightarrow> int \<Rightarrow> rateLimitDB \<Rightarrow> bool" where
  "in_window uid key t windowStart r =
     (rl_user_id r = uid \<and> rl_api_key r = key \<and> rl_window_type r = t
      \<and> window_start r \<ge> windowStart)"

text \<open>
  The insert of a new window. The table has UNIQUE(user_id, api_key, window_type,
  window_start): a second row with the same four values is refused with error 23505, which
  the caller ignores.
\<close>

definition insert_window :: "rateLimitDB \<Rightarrow> rateLimitDB list \<Rightarrow> rateLimitDB list" where
  "insert_window new tbl =
     (if list_ex (\<lambda>r. rl_user_id r = rl_user_id new \<and> rl_api_key r = rl_api_key new
                         \<and> rl_window_type r = rl_window_type new
                         \<and> window_start r = window_start new) tbl
      then tbl else tbl @ [new])"

text \<open>
  One turn of the loop over the windows: \<open>False\<close> when the turn returns \<open>false\<close> from
  \<^verbatim>\<open>checkRateLimit\<close> (the count of the one selected window has reached the limit), \<open>True\<close>
  when the loop goes on, with the table as the turn leaves it.
\<close>

definition window_step ::
  "string \<Rightarrow> string \<Rightarrow> int \<Rightarrow> window \<Rightarrow> rateLimitDB list \<Rightarrow> bool \<times> rateLimitDB list" where
  "window_step uid key now w tbl =
     (let windowStart = now - duration w
      in case single (filter (in_window uid key (wtype w) windowStart) tbl) of
           Some existing \<Rightarrow>
             if request_count existing \<ge> limit w then (False, tbl)
             else (True, map (\<lambda>r. if in_window uid key (wtype w) windowStart r
                                    then r\<lparr> request_count := request_count existing + 1 \<rparr>
                                    else r) tbl)
         | None \<Rightarrow>
             (True, insert_window \<lparr> rl_user_id = uid, rl_api_key = key,
                                    rl_window_type = wtype w, window_start = now,
                                    request_count = 1 \<rparr> tbl))"

text \<open>
  The loop. Its result is the window kind whose limit the call found reached (the kind
  named in the log line \<^verbatim>\<open>Rate limit exceeded (kind)\<close>), or \<open>None\<close> when every window
  passed, and the table as the call leaves it.
\<close>

fun window_loop ::
  "string \<Rightarrow> string \<Rightarrow> int \<Rightarrow> window list \<Rightarrow> rateLimitDB list
   \<Rightarrow> window_type option \<times> rateLimitDB list" where
  "window_loop uid key now [] tbl = (None, tbl)"
| "window_loop uid key now (w # ws) tbl =
     (case window_step uid key now w tbl of
        (False, tbl') \<Rightarrow> (Some (wtype w), tbl')
      | (True, tbl') \<Rightarrow> window_loop uid key now ws tbl')"

definition exceeded_window ::
  "string \<Rightarrow> string \<Rightarrow> rateLimitConfig \<Rightarrow> int \<Rightarrow> rateLimitDB list \<Rightarrow> window_type option" where
  "exceeded_window uid key config now tbl = fst (window_loop uid key now (windows config) tbl)"

definition checkRateLimit ::
  "string \<Rightarrow> string \<Rightarrow> rateLimitConfig \<Rightarrow> int \<Rightarrow> rateLimitDB list \<Rightarrow> bool \<times> rateLimitDB list" where
  "checkRateLimit uid key config now tbl =
     (case window_loop uid key now (windows config) tbl of
        (None, tbl') \<Rightarrow> (True, tbl')
      | (Some k, tbl') \<Rightarrow> (False, tbl'))"

text \<open>
  A run of calls for one (account, credential) pair at the given times, one after another:
  for each call what it returned and the window kind it found exceeded, if any.
\<close>

fun run_calls ::
  "string \<Rightarrow> string \<Rightarrow> rateLimitConfig \<Rightarrow> int list \<Rightarrow> rateLimitDB list
   \<Rightarrow> (bool \<times> window_type option) list" where
  "run_calls uid key config [] tbl = []"
| "run_calls uid key config (t # ts) tbl =
     (fst (checkRateLimit uid key config t tbl), exceeded_window uid key config t tbl)
     # run_calls uid key config ts (snd (checkRateLimit uid key config t tbl))"

text \<open>The limit and the duration of each kind, and the place of each kind in the loop.\<close>

fun limit_of :: "rateLimitConfig \<Rightarrow> window_type \<Rightarrow> int" where
  "limit_of config minute = maxRequestsPerMinute config"
| "limit_of config hour = maxRequestsPerHour config"
| "limit_of config day = maxRequestsPerDay config"

fun duration_of :: "window_type \<Rightarrow> int" where
  "duration_of minute = 60 * 1000"
| "duration_of hour = 60 * 60 * 1000"
| "duration_of day = 24 * 60 * 60 * 1000"

fun kind_index :: "window_type \<Rightarrow> nat" where
  "kind_index minute = 0"
| "kind_index hour = 1"
| "kind_index day = 2"

section \<open>Authentication and validation of a payload (webhookAuth.ts)\<close>

text \<open>
  \<^verbatim>\<open>verifyWebhookSignature\<close>: every throw of the lookup, of the decryption and of
  \<^verbatim>\<open>verifyHmacSignature\<close> is caught and becomes \<open>false\<close>.
\<close>

definition verifyWebhookSignature :: "env \<Rightarrow> state \<Rightarrow> jsobject \<Rightarrow> bool" where
  "verifyWebhookSignature E st payload =
     (case getWebhookByApiKey st (to_string E (get_prop payload ''apiKey'')) of
        None \<Rightarrow> False
      | Some webhookConfig \<Rightarrow>
          (case encryptedSecret webhookConfig of
             None \<Rightarrow> False
           | Some enc \<Rightarrow>
               (case decryptApiSecret E enc of
                  Inl e \<Rightarrow> False
                | Inr plainSecret \<Rightarrow>
                    (case verifyHmacSignature E payload (get_prop payload ''signature'') plainSecret of
                       Inl e \<Rightarrow> False
                     | Inr b \<Rightarrow> b))))"

fun is_number :: "jsval \<Rightarrow> bool" where
  "is_number (JNum n) = True"
| "is_number v = False"

text \<open>\<^verbatim>\<open>validateWebhookPayload\<close>: \<open>None\<close> for \<open>{valid: true}\<close>, the error text otherwise.\<close>

definition validateWebhookPayload :: "env \<Rightarrow> jsobject \<Rightarrow> string option" where
  "validateWebhookPayload E payload =
     (if \<not> truthy (get_prop payload ''action'') then Some ''Missing required field: action''
      else if get_prop payload ''action'' \<notin> set [JStr ''buy'', JStr ''sell'', JStr ''close'']
        then Some (''Invalid action. Must be 'buy', 'sell', or 'close'' @ [CHR 0x27])
      else if \<not> truthy (get_prop payload ''symbol'') then Some ''Missing required field: symbol''
      else if \<not> is_number (get_prop payload ''quantity'')
              \<or> num_le (to_number E (get_prop payload ''quantity'')) (Fin 0)
        then Some ''Invalid quantity. Must be a positive number''
      else if \<not> truthy (get_prop payload ''apiKey'') then Some ''Missing required field: apiKey''
      else if \<not> truthy (get_prop payload ''signature'')
        then Some ''Missing required field: signature''
      else if \<not> truthy (get_prop payload ''timestamp'')
        then Some ''Missing required field: timestamp''
      else if truthy (get_prop payload ''orderType'')
              \<and> get_prop payload ''orderType'' \<notin> set [JStr ''market'', JStr ''limit'', JStr ''stop'']
        then Some (''Invalid orderType. Must be 'market', 'limit', or 'stop'' @ [CHR 0x27])
      else if get_prop payload ''orderType'' = JStr ''limit'' \<and> \<not> truthy (get_prop payload ''price'')
        then Some ''Limit orders require a price''
      else if truthy (get_prop payload ''stopLoss'') \<and> \<not> is_number (get_prop payload ''stopLoss'')
        then Some ''Invalid stopLoss. Must be a number''
      else if truthy (get_prop payload ''takeProfit'') \<and> \<not> is_number (get_prop payload ''takeProfit'')
        then Some ''Invalid takeProfit. Must be a number''
      else None)"

section \<open>The TradingView webhook handler (api/webhooks/tradingview/route.ts)\<close>

record response =
  http_status :: nat
  json :: jsobject

definition error_response :: "nat \<Rightarrow> string \<Rightarrow> response" where
  "error_response code msg =
     \<lparr> http_status = code, json = [(''success'', JBool False), (''error'', JStr msg)] \<rparr>"

text \<open>What \<^verbatim>\<open>request.json()\<close> gives. A body that is a JSON number, string, boolean or array
  has none of the properties the handler reads and behaves as \<open>JsonObject []\<close>.\<close>

datatype body = InvalidJson | JsonNull | JsonObject jsobject

definition missingRequiredFields :: "jsobject \<Rightarrow> bool" where
  "missingRequiredFields payload =
     (\<not> truthy (get_prop payload ''action'') \<or> \<not> truthy (get_prop payload ''symbol'')
      \<or> \<not> truthy (get_prop payload ''quantity'') \<or> \<not> truthy (get_prop payload ''apiKey''))"

text \<open>The replay check: \<^verbatim>\<open>Math.abs(currentTime - payload.timestamp * 1000) > 5 * 60 * 1000\<close>.\<close>

definition timestampRejected :: "env \<Rightarrow> int \<Rightarrow> jsobject \<Rightarrow> bool" where
  "timestampRejected E currentTime payload =
     (let requestTime = num_mul (to_number E (get_prop payload ''timestamp'')) (Fin 1000)
      in num_gt (num_abs (num_sub (Fin (of_int currentTime)) requestTime)) (Fin (5 * 60 * 1000)))"

definition symbolNotAllowed :: "webhookConfig \<Rightarrow> jsobject \<Rightarrow> bool" where
  "symbolNotAllowed webhookConfig payload =
     (length (allowedSymbols webhookConfig) > 0
      \<and> get_prop payload ''symbol'' \<notin> set (map JStr (allowedSymbols webhookConfig)))"

text \<open>The order size check: \<^verbatim>\<open>orderValue = payload.quantity * (payload.price || 0)\<close>.\<close>

definition orderValue :: "env \<Rightarrow> jsobject \<Rightarrow> jsnum" where
  "orderValue E payload =
     num_mul (to_number E (get_prop payload ''quantity''))
             (to_number E (js_or (get_prop payload ''price'') (JNum (Fin 0))))"

definition orderSizeExceeded :: "env \<Rightarrow> webhookConfig \<Rightarrow> jsobject \<Rightarrow> bool" where
  "orderSizeExceeded E webhookConfig payload =
     (truthy (JNum (maxOrderSize webhookConfig))
      \<and> num_gt (orderValue E payload) (maxOrderSize webhookConfig))"

definition stopLossMissing :: "webhookConfig \<Rightarrow> jsobject \<Rightarrow> bool" where
  "stopLossMissing webhookConfig payload =
     (requireStopLoss webhookConfig \<and> \<not> truthy (get_prop payload ''stopLoss''))"

text \<open>
  The body of the \<^verbatim>\<open>try\<close> block once the body is parsed to an object: \<open>Inr\<close> a response
  that was returned, \<open>Inl\<close> an error that was thrown. The only call that throws is the
  external executor; every call made to it is recorded in \<open>orders\<close>.
\<close>

definition try_block :: "env \<Rightarrow> int \<Rightarrow> state \<Rightarrow> jsobject \<Rightarrow> (error + response) \<times> state" where
  "try_block E now st payload =
     (if missingRequiredFields payload
      then (Inr (error_response 400 ''Missing required fields: action, symbol, quantity, or apiKey''), st)
      else if timestampRejected E now payload
      then (Inr (error_response 401 ''Request timestamp is too old or invalid''), st)
      else if \<not> verifyWebhookSignature E st payload
      then (Inr (error_response 401 ''Invalid signature or API key''), st)
      else
        (case getUserFromApiKey st (to_string E (get_prop payload ''apiKey'')) of
           None \<Rightarrow> (Inr (error_response 401 ''Invalid API key''), st)
         | Some webhookConfig \<Rightarrow>
             if \<not> enabled webhookConfig
             then (Inr (error_response 403 ''Webhook is disabled''), st)
             else
               (case checkRateLimit (userId webhookConfig) (to_string E (get_prop payload ''apiKey''))
                       DEFAULT_RATE_LIMITS now (rate_limits st) of
                  (rateLimitOk, tbl) \<Rightarrow>
                    (let st1 = st\<lparr> rate_limits := tbl \<rparr>
                     in if \<not> rateLimitOk
                        then (Inr (error_response 429 ''Rate limit exceeded. Please try again later.''), st1)
                        else if symbolNotAllowed webhookConfig payload
                        then (Inr (error_response 403
                                (''Symbol '' @ to_string E (get_prop payload ''symbol'')
                                 @ '' is not allowed for this webhook'')), st1)
                        else if orderSizeExceeded E webhookConfig payload
                        then (Inr (error_response 403
                                (''Order size exceeds maximum limit of ''
                                 @ to_string E (JNum (maxOrderSize webhookConfig)))), st1)
                        else if stopLossMissing webhookConfig payload
                        then (Inr (error_response 400
                                ''Stop loss is required for this webhook configuration''), st1)
                        else
                          (let st2 = st1\<lparr> orders := orders st1 @ [(payload, userId webhookConfig)] \<rparr>
                           in case executeOrder E payload (userId webhookConfig) of
                                Inl e \<Rightarrow> (Inl e, st2)
                              | Inr orderResult \<Rightarrow>
                                  (Inr \<lparr> http_status = 200,
                                         json = [(''success'', JBool True),
                                                 (''orderId'', JStr (orderId orderResult)),
                                                 (''message'', JStr ''Order placed successfully''),
                                                 (''executedPrice'', executedPrice orderResult),
                                                 (''executedQuantity'', executedQuantity orderResult),
                                                 (''timestamp'', JNum (Fin (of_int now)))] \<rparr>,
                                   logWebhookExecution now (cfg_id webhookConfig) payload
                                     [(''success'', JBool True),
                                      (''orderId'', JStr (orderId orderResult)),
                                      (''executedPrice'', executedPrice orderResult),
                                      (''executedQuantity'', executedQuantity orderResult)]
                                     success (Some (orderId orderResult)) None st2))))))"

text \<open>The \<^verbatim>\<open>catch\<close> block: \<open>payload\<close> is \<open>None\<close> when the body did not parse to an object.\<close>

definition catch_block :: "env \<Rightarrow> int \<Rightarrow> state \<Rightarrow> jsobject option \<Rightarrow> error \<Rightarrow> response \<times> state" where
  "catch_block E now st payload e =
     (let st' =
        (case payload of
           None \<Rightarrow> st
         | Some p \<Rightarrow>
             if truthy (get_prop p ''apiKey'')
             then (case getUserFromApiKey st (to_string E (get_prop p ''apiKey'')) of
                     None \<Rightarrow> st
                   | Some webhookConfig \<Rightarrow>
                       logWebhookExecution now (cfg_id webhookConfig) p
                         [(''success'', JBool False), (''error'', JStr (message e))]
                         failed None (Some (message e)) st)
             else st)
      in if str_includes (message e) ''Insufficient balance''
         then (error_response 400 ''Insufficient balance to execute order'', st')
         else if str_includes (message e) ''Market closed''
         then (error_response 400 ''Market is closed'', st')
         else (error_response 500 ''Internal server error'', st'))"

definition POST :: "env \<Rightarrow> int \<Rightarrow> state \<Rightarrow> body \<Rightarrow> response \<times> state" where
  "POST E now st b =
     (case b of
        InvalidJson \<Rightarrow> catch_block E now st None (SyntaxError ''Unexpected token in JSON'')
      | JsonNull \<Rightarrow>
          catch_block E now st None (TypeError ''Cannot read properties of null (reading 'action')'')
      | JsonObject payload \<Rightarrow>
          (case try_block E now st payload of
             (Inr r, st') \<Rightarrow> (r, st')
           | (Inl e, st') \<Rightarrow> catch_block E now st' (Some payload) e))"

section \<open>A test deployment\<close>

text \<open>
  Stand-ins for the runtime and the collaborators, to run the handler on concrete
  requests: a MAC that concatenates secret and message, a cipher whose ciphertext is the
  plaintext, an executor that fills every order, and days that start at midnight UTC.
\<close>

definition stub_env :: env where
  "stub_env =
     \<lparr> numberToString = (\<lambda>x. ''n''),
       stringToNumber = (\<lambda>s. NaN),
       hmacSha256Hex = (\<lambda>secret msg. secret @ ''|'' @ msg),
       sha256Hex = (\<lambda>s. ''h'' @ s),
       WEBHOOK_ENCRYPTION_KEY = Some ''00'',
       hexDecode = (\<lambda>s. replicate 32 CHR ''k''),
       aesGcmDecrypt = (\<lambda>key iv ct tag. Inr ct),
       executeOrder = (\<lambda>p u. Inr \<lparr> orderId = ''o1'', executedPrice = get_prop p ''price'',
                                      executedQuantity = get_prop p ''quantity'' \<rparr>),
       startOfLocalDay = (\<lambda>t. t - t mod 86400000) \<rparr>"

text \<open>The credential of the end-to-end scenario: BTC only, orders up to 5000, 10000 a day,
  stop loss required.\<close>

definition btc_webhook :: webhookDB where
  "btc_webhook =
     \<lparr> row_id = ''w1'', user_id = ''u1'', api_key = ''K'', api_key_hash = None,
       encrypted_secret = Some ''iv:S:tag'', row_enabled = True, allowed_symbols = [''BTC''],
       max_order_size = Some 5000, daily_limit = Some 10000, require_stop_loss = True \<rparr>"

definition now0 :: int where
  "now0 = 1700000000000"

definition btc_order :: "jsval \<Rightarrow> jsobject" where
  "btc_order qty =
     [(''action'', JStr ''buy''), (''symbol'', JStr ''BTC''), (''quantity'', qty),
      (''price'', JNum (Fin 60000)), (''stopLoss'', JNum (Fin 58000)), (''apiKey'', JStr ''K''),
      (''timestamp'', JNum (Fin 1700000000))]"

text \<open>A payload without one of its properties.\<close>

definition without :: "string \<Rightarrow> jsobject \<Rightarrow> jsobject" where
  "without k p = filter (\<lambda>kv. fst kv \<noteq> k) p"

text \<open>A payload with the signature the stub MAC gives it under the secret \<open>S\<close>.\<close>

definition signed :: "jsobject \<Rightarrow> jsobject" where
  "signed p = p @ [(''signature'', JStr (''S|'' @ signedMessage stub_env p))]"

definition filled_log :: "int \<Rightarrow> webhookLogDB" where
  "filled_log t =
     \<lparr> webhook_id = ''w1'', request_payload = signed (btc_order (JNum (Fin 0.05))),
       response_payload = [(''success'', JBool True)], order_id = Some ''o1'',
       status = success, error_message = None, created_at = t \<rparr>"

definition empty_store :: state where
  "empty_store = \<lparr> webhooks = [btc_webhook], webhook_logs = [], rate_limits = [], orders = [] \<rparr>"

text \<open>The store after four filled orders of notional 3000 earlier on the same day.\<close>

definition busy_store :: state where
  "busy_store =
     \<lparr> webhooks = [btc_webhook],
       webhook_logs = [filled_log (now0 - 4000), filled_log (now0 - 3000),
                       filled_log (now0 - 2000), filled_log (now0 - 1000)],
       rate_limits = [], orders = [] \<rparr>"

text \<open>Rate windows of the credential: three requests in the running minute, and an hour and
  a day that both opened half an hour ago and have counted a hundred requests.\<close>

definition rate_row :: "window_type \<Rightarrow> int \<Rightarrow> int \<Rightarrow> rateLimitDB" where
  "rate_row k start n =
     \<lparr> rl_user_id = ''u1'', rl_api_key = ''K'', rl_window_type = k, window_start = start,
       request_count = n \<rparr>"

definition hour_full :: "rateLimitDB list" where
  "hour_full =
     [rate_row minute (now0 - 1000) 3, rate_row hour (now0 - 1800000) 100,
      rate_row day (now0 - 1800000) 100]"

text \<open>Limits small enough to reach the hour and the day limit in a handful of calls.\<close>

definition small_limits :: rateLimitConfig where
  "small_limits = \<lparr> maxRequestsPerMinute = 2, maxRequestsPerHour = 3, maxRequestsPerDay = 4 \<rparr>"

section \<open>Unfolding the model\<close>

lemmas js_defs = get_prop_def js_or_def object_keys_def
lemmas crypto_defs = verifyWebhookSignature_def verifyHmacSignature_def crypto_timingSafeEqual_def
  decryptApiSecret_def getEncryptionKey_def signedMessage_def dataToSign_def
lemmas store_defs = getUserFromApiKey_def getWebhookByApiKey_def single_def toWebhookConfig_def
  Number_of_def logWebhookExecution_def
lemmas limiter_defs = checkRateLimit_def windows_def window_step_def in_window_def
  insert_window_def DEFAULT_RATE_LIMITS_def
lemmas handler_defs = POST_def try_block_def catch_block_def missingRequiredFields_def
  timestampRejected_def symbolNotAllowed_def orderSizeExceeded_def orderValue_def
  stopLossMissing_def error_response_def
lemmas fixture_defs = stub_env_def btc_webhook_def now0_def btc_order_def signed_def
  empty_store_def busy_store_def filled_log_def without_def rate_row_def hour_full_def

section \<open>The canonical message\<close>

lemma sorted_keys_determined:
  fixes p q :: jsobject
  assumes "distinct (map fst p)" "distinct (map fst q)" "set p = set q"
  shows "sort (object_keys p) = sort (object_keys q)"
proof -
  have "set (object_keys p) = set (object_keys q)"
    using assms(3) by (simp add: object_keys_def)
  moreover have "distinct (sort (object_keys p))" "distinct (sort (object_keys q))"
    using assms(1,2) by (simp_all add: object_keys_def)
  ultimately show ?thesis
    by (intro sorted_distinct_set_unique) simp_all
qed

lemma get_prop_determined:
  assumes "distinct (map fst p)" "distinct (map fst q)" "set p = set q"
  shows "get_prop p = get_prop q"
proof -
  have "map_of p = map_of q"
    using assms by (simp add: map_of_inject_set)
  then show ?thesis
    by (simp add: get_prop_def fun_eq_iff)
qed

lemma createSignatureMessage_determined:
  assumes "distinct (map fst p)" "distinct (map fst q)" "set p = set q"
  shows "createSignatureMessage E p = createSignatureMessage E q"
  using sorted_keys_determined [OF assms] get_prop_determined [OF assms]
  by (simp add: createSignatureMessage_def)

lemma signedMessage_createSignatureMessage:
  "signedMessage E p = createSignatureMessage E (dataToSign p)"
  by (simp add: signedMessage_def createSignatureMessage_def Let_def)

lemma distinct_dataToSign: "distinct (map fst p) \<Longrightarrow> distinct (map fst (dataToSign p))"
  by (simp add: dataToSign_def distinct_map_filter)

text \<open>
  C8. Canonicalisation does not depend on insertion order: two payloads (objects, so with
  distinct keys) that hold the same key/value pairs once the \<open>signature\<close> property is set
  aside give the same canonical string, both as \<^verbatim>\<open>verifyHmacSignature\<close> builds it and as
  \<^verbatim>\<open>createSignatureMessage\<close> does, so sender and verifier feed the same input to the HMAC.
\<close>

theorem canonical_message_order_independent:
  assumes "distinct (map fst p)" and "distinct (map fst q)"
    and "set (dataToSign p) = set (dataToSign q)"
  shows "signedMessage E p = signedMessage E q
         \<and> createSignatureMessage E (dataToSign p) = createSignatureMessage E (dataToSign q)
         \<and> hmacSha256Hex E secret (signedMessage E p) = hmacSha256Hex E secret (signedMessage E q)"
proof -
  have "createSignatureMessage E (dataToSign p) = createSignatureMessage E (dataToSign q)"
    using assms by (intro createSignatureMessage_determined distinct_dataToSign)
  then show ?thesis
    by (simp add: signedMessage_createSignatureMessage)
qed

theorem canonical_message_order_independent_witness:
  "distinct (map fst [(''symbol'', JStr ''BTC''), (''signature'', JStr ''a''), (''action'', JStr ''buy'')])
   \<and> distinct (map fst [(''action'', JStr ''buy''), (''symbol'', JStr ''BTC''), (''signature'', JStr ''b'')])
   \<and> set (dataToSign [(''symbol'', JStr ''BTC''), (''signature'', JStr ''a''), (''action'', JStr ''buy'')])
     = set (dataToSign [(''action'', JStr ''buy''), (''symbol'', JStr ''BTC''), (''signature'', JStr ''b'')])
   \<and> signedMessage stub_env [(''symbol'', JStr ''BTC''), (''signature'', JStr ''a''), (''action'', JStr ''buy'')]
     = ''action=buy&symbol=BTC''
   \<and> signedMessage stub_env [(''action'', JStr ''buy''), (''symbol'', JStr ''BTC''), (''signature'', JStr ''b'')]
     = ''action=buy&symbol=BTC''"
proof -
  let ?p = "[(''symbol'', JStr ''BTC''), (''signature'', JStr ''a''), (''action'', JStr ''buy'')]"
  let ?q = "[(''action'', JStr ''buy''), (''symbol'', JStr ''BTC''), (''signature'', JStr ''b'')]"
  have d: "distinct (map fst ?p)" "distinct (map fst ?q)" by simp_all
  have s: "set (dataToSign ?p) = set (dataToSign ?q)" by (auto simp: dataToSign_def)
  have q: "signedMessage stub_env ?q = ''action=buy&symbol=BTC''"
    by (simp add: signedMessage_def dataToSign_def object_keys_def get_prop_def)
  from canonical_message_order_independent [OF d s, of stub_env "''S''"] q d s
  show ?thesis by simp
qed

section \<open>Comparing signatures\<close>

text \<open>The comparison written out in webhookAuth.ts decides equality of the two strings.\<close>

lemma fold_or_zero:
  "fold (\<lambda>i result. result OR (f i :: nat)) is acc = 0 \<longleftrightarrow> acc = 0 \<and> (\<forall>i \<in> set is. f i = 0)"
  by (induction "is" arbitrary: acc) (auto simp: or_eq_0_iff)

lemma xor_nat_zero: "(x::nat) XOR y = 0 \<longleftrightarrow> x = y"
  by (metis xor_self_eq xor.left_neutral xor.assoc)

lemma timingSafeEqual_iff: "timingSafeEqual a b \<longleftrightarrow> a = b"
proof (cases "length a = length b")
  case False
  then show ?thesis by (auto simp: timingSafeEqual_def)
next
  case True
  have "timingSafeEqual a b \<longleftrightarrow> (\<forall>i < length a. a ! i = b ! i)"
    using True by (auto simp: timingSafeEqual_def fold_or_zero xor_nat_zero)
  also have "\<dots> \<longleftrightarrow> a = b"
    using True by (auto simp: list_eq_iff_nth_eq)
  finally show ?thesis .
qed

lemma verifyHmacSignature_length_mismatch:
  assumes "length s \<noteq> length (hmacSha256Hex E secret (signedMessage E payload))"
  shows "verifyHmacSignature E payload (JStr s) secret
           = Inl (RangeError ''Input buffers must have the same byte length'')"
  using assms by (simp add: verifyHmacSignature_def crypto_timingSafeEqual_def)

lemma verifyHmacSignature_not_string:
  assumes "\<forall>s. v \<noteq> JStr s"
  shows "\<exists>e. verifyHmacSignature E payload v secret = Inl e"
  using assms by (cases v) (simp_all add: verifyHmacSignature_def)

text \<open>
  C7, as amended. When the provided signature's length differs from the expected HMAC's,
  \<^verbatim>\<open>verifyHmacSignature\<close> itself throws (the RangeError of \<^verbatim>\<open>crypto.timingSafeEqual\<close>); its
  caller \<^verbatim>\<open>verifyWebhookSignature\<close> catches the throw, so that signature verification as
  the gateway performs it returns \<open>false\<close> and does not throw.
\<close>

theorem verifyWebhookSignature_length_mismatch:
  assumes "getWebhookByApiKey st (to_string E (get_prop payload ''apiKey'')) = Some c"
    and "encryptedSecret c = Some enc"
    and "decryptApiSecret E enc = Inr secret"
    and "get_prop payload ''signature'' = JStr s"
    and "length s \<noteq> length (hmacSha256Hex E secret (signedMessage E payload))"
  shows "verifyHmacSignature E payload (JStr s) secret
           = Inl (RangeError ''Input buffers must have the same byte length'')
         \<and> verifyWebhookSignature E st payload = False"
  using assms by (simp add: verifyWebhookSignature_def verifyHmacSignature_length_mismatch)

theorem verifyWebhookSignature_length_mismatch_witness:
  "getWebhookByApiKey empty_store
      (to_string stub_env (get_prop [(''apiKey'', JStr ''K''), (''signature'', JStr ''abc'')] ''apiKey''))
     = Some (toWebhookConfig btc_webhook)
   \<and> encryptedSecret (toWebhookConfig btc_webhook) = Some ''iv:S:tag''
   \<and> decryptApiSecret stub_env ''iv:S:tag'' = Inr ''S''
   \<and> get_prop [(''apiKey'', JStr ''K''), (''signature'', JStr ''abc'')] ''signature'' = JStr ''abc''
   \<and> length ''abc'' \<noteq> length (hmacSha256Hex stub_env ''S''
        (signedMessage stub_env [(''apiKey'', JStr ''K''), (''signature'', JStr ''abc'')]))
   \<and> verifyHmacSignature stub_env [(''apiKey'', JStr ''K''), (''signature'', JStr ''abc'')] (JStr ''abc'') ''S''
        = Inl (RangeError ''Input buffers must have the same byte length'')
   \<and> verifyWebhookSignature stub_env empty_store [(''apiKey'', JStr ''K''), (''signature'', JStr ''abc'')] = False"
proof -
  let ?p = "[(''apiKey'', JStr ''K''), (''signature'', JStr ''abc'')]"
  have a: "getWebhookByApiKey empty_store (to_string stub_env (get_prop ?p ''apiKey''))
             = Some (toWebhookConfig btc_webhook)"
    by (simp add: store_defs js_defs fixture_defs)
  have b: "encryptedSecret (toWebhookConfig btc_webhook) = Some ''iv:S:tag''"
    by (simp add: store_defs fixture_defs)
  have c: "decryptApiSecret stub_env ''iv:S:tag'' = Inr ''S''"
    by (simp add: crypto_defs fixture_defs)
  have d: "get_prop ?p ''signature'' = JStr ''abc''"
    by (simp add: js_defs)
  have e: "length ''abc'' \<noteq> length (hmacSha256Hex stub_env ''S'' (signedMessage stub_env ?p))"
    by (simp add: crypto_defs js_defs fixture_defs)
  from verifyWebhookSignature_length_mismatch [OF a b c d e] a b c d e
  show ?thesis by blast
qed

text \<open>
  The claim as it was stated fails: on a signature of another length
  \<^verbatim>\<open>verifyHmacSignature\<close> does not return \<open>false\<close>, it throws.
\<close>

theorem verifyHmacSignature_throws_counterexample:
  "length ''abc'' \<noteq> length (hmacSha256Hex stub_env ''S'' (signedMessage stub_env [(''action'', JStr ''buy'')]))
   \<and> verifyHmacSignature stub_env [(''action'', JStr ''buy'')] (JStr ''abc'') ''S''
       = Inl (RangeError ''Input buffers must have the same byte length'')"
  by (simp add: verifyHmacSignature_def crypto_timingSafeEqual_def stub_env_def
        signedMessage_def dataToSign_def object_keys_def get_prop_def)

section \<open>Resolving a credential\<close>

lemma filter_key_unique:
  assumes "distinct (map f xs)" and "r \<in> set xs"
  shows "filter (\<lambda>x. f x = f r) xs = [r]"
  using assms
proof (induction xs)
  case Nil
  then show ?case by simp
next
  case (Cons x xs)
  show ?case
  proof (cases "x = r")
    case True
    have "f r \<notin> f ` set xs"
      using Cons.prems(1) True by simp
    then have "\<forall>y \<in> set xs. f y \<noteq> f r"
      by (metis imageI)
    then have "filter (\<lambda>y. f y = f r) xs = []"
      by (simp add: filter_empty_conv)
    with True show ?thesis by simp
  next
    case False
    with Cons.prems have "r \<in> set xs" "f x \<noteq> f r" "distinct (map f xs)"
      by auto
    with Cons.IH show ?thesis by simp
  qed
qed

text \<open>
  C10, as amended. \<^verbatim>\<open>getWebhookByApiKey\<close> finds the stored credential by equality on the
  plaintext public identifier, the \<open>api_key\<close> column (unique in the table): every stored
  row is found under its own key, a key no row has finds nothing, and what the
  \<open>api_key_hash\<close> column holds has no influence on the result.
\<close>

theorem resolve_by_plaintext_key:
  assumes "distinct (map api_key (webhooks st))"
  shows "(\<forall>r \<in> set (webhooks st). getWebhookByApiKey st (api_key r) = Some (toWebhookConfig r))
         \<and> (k \<notin> api_key ` set (webhooks st) \<longrightarrow> getWebhookByApiKey st k = None)
         \<and> getWebhookByApiKey (st\<lparr> webhooks := map (\<lambda>r. r\<lparr> api_key_hash := h r \<rparr>) (webhooks st) \<rparr>) k
             = getWebhookByApiKey st k"
proof (intro conjI ballI impI)
  fix r assume "r \<in> set (webhooks st)"
  then have "filter (\<lambda>x. api_key x = api_key r) (webhooks st) = [r]"
    using assms by (rule filter_key_unique [rotated])
  then show "getWebhookByApiKey st (api_key r) = Some (toWebhookConfig r)"
    by (simp add: getWebhookByApiKey_def single_def)
next
  assume "k \<notin> api_key ` set (webhooks st)"
  then have "filter (\<lambda>x. api_key x = k) (webhooks st) = []"
    by (auto simp: filter_empty_conv)
  then show "getWebhookByApiKey st k = None"
    by (simp add: getWebhookByApiKey_def single_def)
next
  have "filter (\<lambda>x. api_key x = k) (map (\<lambda>r. r\<lparr> api_key_hash := h r \<rparr>) (webhooks st))
          = map (\<lambda>r. r\<lparr> api_key_hash := h r \<rparr>) (filter (\<lambda>x. api_key x = k) (webhooks st))"
    by (simp add: filter_map comp_def)
  then show "getWebhookByApiKey (st\<lparr> webhooks := map (\<lambda>r. r\<lparr> api_key_hash := h r \<rparr>) (webhooks st) \<rparr>) k
               = getWebhookByApiKey st k"
    by (simp add: getWebhookByApiKey_def single_def toWebhookConfig_def
             split: list.splits)
qed

theorem resolve_by_plaintext_key_witness:
  "distinct (map api_key (webhooks empty_store))
   \<and> btc_webhook \<in> set (webhooks empty_store)
   \<and> getWebhookByApiKey empty_store (api_key btc_webhook) = Some (toWebhookConfig btc_webhook)
   \<and> ''X'' \<notin> api_key ` set (webhooks empty_store)
   \<and> getWebhookByApiKey empty_store ''X'' = None
   \<and> getWebhookByApiKey (empty_store\<lparr> webhooks :=
          map (\<lambda>r. r\<lparr> api_key_hash := Some (hashApiKey stub_env (api_key r)) \<rparr>) (webhooks empty_store) \<rparr>) ''K''
       = getWebhookByApiKey empty_store ''K''"
proof -
  have d: "distinct (map api_key (webhooks empty_store))"
    by (simp add: fixture_defs)
  have m: "btc_webhook \<in> set (webhooks empty_store)"
    by (simp add: fixture_defs)
  have x: "''X'' \<notin> api_key ` set (webhooks empty_store)"
    by (simp add: fixture_defs)
  from resolve_by_plaintext_key [OF d, of "''X''" "\<lambda>r. Some (hashApiKey stub_env (api_key r))"]
       resolve_by_plaintext_key [OF d, of "''K''" "\<lambda>r. Some (hashApiKey stub_env (api_key r))"] d m x
  show ?thesis by blast
qed

text \<open>
  The claim as it was stated fails: a credential stored as \<^verbatim>\<open>createWebhook\<close> stores it, with
  no lookup hash, is resolved by \<^verbatim>\<open>getWebhookByApiKey\<close>, and a lookup by hash would not
  find it.
\<close>

theorem resolve_not_by_hash_counterexample:
  "getWebhookByApiKey empty_store ''K'' = Some (toWebhookConfig btc_webhook)
   \<and> spec_resolve stub_env empty_store ''K'' = None"
  by (simp add: spec_resolve_def hashApiKey_def store_defs fixture_defs)

section \<open>The order size check\<close>

text \<open>
  C2, as amended. For an order whose price is absent the check computes the order value
  as the quantity times zero: the value is zero (or \<open>NaN\<close> when the quantity is no number),
  whatever the quantity, and with a limit that is not negative the check never denies the
  order. The quantity alone is not compared with \<open>maxOrderSize\<close>.
\<close>

theorem priceless_order_passes_size_check:
  assumes "get_prop payload ''price'' = JUndefined"
    and "\<not> num_lt (maxOrderSize c) (Fin 0)"
  shows "(orderValue E payload = Fin 0 \<or> orderValue E payload = NaN)
         \<and> \<not> orderSizeExceeded E c payload"
proof -
  have v: "orderValue E payload = Fin 0 \<or> orderValue E payload = NaN"
    using assms(1)
    by (cases "to_number E (get_prop payload ''quantity'')") (simp_all add: orderValue_def js_or_def)
  moreover have "\<not> orderSizeExceeded E c payload"
    using v assms(2) by (cases "maxOrderSize c") (auto simp: orderSizeExceeded_def)
  ultimately show ?thesis by simp
qed

theorem priceless_order_passes_size_check_witness:
  "get_prop (without ''price'' (btc_order (JNum (Fin 6000)))) ''price'' = JUndefined
   \<and> \<not> num_lt (maxOrderSize (toWebhookConfig btc_webhook)) (Fin 0)
   \<and> orderValue stub_env (without ''price'' (btc_order (JNum (Fin 6000)))) = Fin 0
   \<and> \<not> orderSizeExceeded stub_env (toWebhookConfig btc_webhook) (without ''price'' (btc_order (JNum (Fin 6000))))"
proof -
  have a: "get_prop (without ''price'' (btc_order (JNum (Fin 6000)))) ''price'' = JUndefined"
    by (simp add: js_defs fixture_defs)
  have b: "\<not> num_lt (maxOrderSize (toWebhookConfig btc_webhook)) (Fin 0)"
    by (simp add: store_defs fixture_defs)
  have c: "orderValue stub_env (without ''price'' (btc_order (JNum (Fin 6000)))) \<noteq> NaN"
    by (simp add: orderValue_def js_defs fixture_defs)
  from priceless_order_passes_size_check [OF a b, of stub_env] a b c
  show ?thesis by simp
qed

text \<open>
  The claim as it was stated fails: a signed order for a quantity of 6000 with no price,
  against a limit of 5000, passes the size check and is handed to the executor.
\<close>

theorem priceless_order_counterexample:
  "get_prop (signed (without ''price'' (btc_order (JNum (Fin 6000))))) ''price'' = JUndefined
   \<and> get_prop (signed (without ''price'' (btc_order (JNum (Fin 6000))))) ''quantity'' = JNum (Fin 6000)
   \<and> maxOrderSize (toWebhookConfig btc_webhook) = Fin 5000
   \<and> \<not> orderSizeExceeded stub_env (toWebhookConfig btc_webhook)
          (signed (without ''price'' (btc_order (JNum (Fin 6000)))))
   \<and> http_status (fst (POST stub_env now0 empty_store
        (JsonObject (signed (without ''price'' (btc_order (JNum (Fin 6000)))))))) = 200
   \<and> orders (snd (POST stub_env now0 empty_store
        (JsonObject (signed (without ''price'' (btc_order (JNum (Fin 6000))))))))
       = [(signed (without ''price'' (btc_order (JNum (Fin 6000)))), ''u1'')]"
  by (simp add: handler_defs fixture_defs crypto_defs store_defs js_defs limiter_defs)

section \<open>The replay check\<close>

text \<open>
  A numeric timestamp more than five minutes from the clock, in either direction, is
  refused with 401 before the signature is looked at, once the required fields are there.
\<close>

lemma stale_timestamp_rejected:
  assumes "\<not> missingRequiredFields payload"
    and "get_prop payload ''timestamp'' = JNum (Fin t)"
    and "\<bar>of_int now - t * 1000\<bar> > 5 * 60 * 1000"
  shows "POST E now st (JsonObject payload)
           = (error_response 401 ''Request timestamp is too old or invalid'', st)"
  using assms by (simp add: POST_def try_block_def timestampRejected_def)

lemma validateWebhookPayload_missing_timestamp:
  "validateWebhookPayload stub_env (signed (without ''timestamp'' (btc_order (JNum (Fin 0.05)))))
     = Some ''Missing required field: timestamp''"
  by (simp add: validateWebhookPayload_def fixture_defs js_defs)

text \<open>
  C3. The replay check is to deny a request whose timestamp is missing or not a number. It
  does not: with no \<open>timestamp\<close> the request time is \<open>NaN\<close>, the comparison with the five
  minutes is false and the check lets the request through. A correctly signed order without
  a timestamp is filled, although \<^verbatim>\<open>validateWebhookPayload\<close> calls the same payload invalid.
\<close>

theorem missing_timestamp_accepted:
  "get_prop (signed (without ''timestamp'' (btc_order (JNum (Fin 0.05))))) ''timestamp'' = JUndefined
   \<and> \<not> timestampRejected stub_env now0 (signed (without ''timestamp'' (btc_order (JNum (Fin 0.05)))))
   \<and> http_status (fst (POST stub_env now0 empty_store
        (JsonObject (signed (without ''timestamp'' (btc_order (JNum (Fin 0.05)))))))) = 200
   \<and> orders (snd (POST stub_env now0 empty_store
        (JsonObject (signed (without ''timestamp'' (btc_order (JNum (Fin 0.05))))))))
       = [(signed (without ''timestamp'' (btc_order (JNum (Fin 0.05)))), ''u1'')]"
  by (simp add: validateWebhookPayload_def handler_defs fixture_defs crypto_defs store_defs js_defs limiter_defs)

section \<open>The required fields\<close>

text \<open>
  A quantity that is missing, zero or otherwise falsy is refused with 400 and nothing
  else happens.
\<close>

lemma falsy_quantity_rejected:
  assumes "\<not> truthy (get_prop payload ''quantity'')"
  shows "POST E now st (JsonObject payload)
           = (error_response 400 ''Missing required fields: action, symbol, quantity, or apiKey'', st)"
  using assms by (simp add: POST_def try_block_def missingRequiredFields_def)

lemma validateWebhookPayload_negative_quantity:
  "validateWebhookPayload stub_env (signed (btc_order (JNum (Fin (- 1)))))
     = Some ''Invalid quantity. Must be a positive number''"
  by (simp add: validateWebhookPayload_def fixture_defs js_defs)

text \<open>
  C9. A request whose quantity is not a positive number is to be refused with 400. A
  negative quantity is not: the handler only tests that the quantity is truthy and never
  calls \<^verbatim>\<open>validateWebhookPayload\<close>, which refuses it. A correctly signed order for a quantity
  of -1 is handed to the executor.
\<close>

theorem negative_quantity_accepted:
  "get_prop (signed (btc_order (JNum (Fin (- 1))))) ''quantity'' = JNum (Fin (- 1))
   \<and> http_status (fst (POST stub_env now0 empty_store
        (JsonObject (signed (btc_order (JNum (Fin (- 1)))))))) = 200
   \<and> orders (snd (POST stub_env now0 empty_store (JsonObject (signed (btc_order (JNum (Fin (- 1))))))))
       = [(signed (btc_order (JNum (Fin (- 1)))), ''u1'')]"
  by (simp add: validateWebhookPayload_def handler_defs fixture_defs crypto_defs store_defs js_defs limiter_defs)

section \<open>The daily limit\<close>

lemma catch_block_response:
  "fst (catch_block E now st payload e) = fst (catch_block E' now' st' payload' e)"
  by (simp add: catch_block_def Let_def)

lemma catch_block_orders: "orders (snd (catch_block E now st payload e)) = orders st"
  by (simp add: catch_block_def Let_def logWebhookExecution_def split: option.splits)

lemma verifyWebhookSignature_logs:
  "verifyWebhookSignature E (st\<lparr> webhook_logs := ls \<rparr>) p = verifyWebhookSignature E st p"
  by (simp add: verifyWebhookSignature_def getWebhookByApiKey_def)

lemma getUserFromApiKey_logs:
  "getUserFromApiKey (st\<lparr> webhook_logs := ls \<rparr>) k = getUserFromApiKey st k"
  by (simp add: getUserFromApiKey_def getWebhookByApiKey_def)

lemma try_block_ignores_logs:
  "fst (try_block E now (st\<lparr> webhook_logs := ls \<rparr>) p) = fst (try_block E now st p)
   \<and> orders (snd (try_block E now (st\<lparr> webhook_logs := ls \<rparr>) p)) = orders (snd (try_block E now st p))"
  by (simp add: try_block_def verifyWebhookSignature_logs getUserFromApiKey_logs Let_def
        logWebhookExecution_def split: option.splits prod.splits sum.splits)

text \<open>
  The handler never reads the execution log: its response and its calls to the executor
  are the same whatever has been recorded for the credential.
\<close>

lemma POST_ignores_logs:
  "fst (POST E now (st\<lparr> webhook_logs := ls \<rparr>) b) = fst (POST E now st b)
   \<and> orders (snd (POST E now (st\<lparr> webhook_logs := ls \<rparr>) b)) = orders (snd (POST E now st b))"
proof (cases b)
  case InvalidJson
  then show ?thesis
    by (simp add: POST_def catch_block_orders catch_block_response [where st = "st\<lparr> webhook_logs := ls \<rparr>" and st' = st and E' = E and now' = now and payload' = None])
next
  case JsonNull
  then show ?thesis
    by (simp add: POST_def catch_block_orders catch_block_response [where st = "st\<lparr> webhook_logs := ls \<rparr>" and st' = st and E' = E and now' = now and payload' = None])
next
  case (JsonObject p)
  obtain res st1 where a: "try_block E now (st\<lparr> webhook_logs := ls \<rparr>) p = (res, st1)"
    by (cases "try_block E now (st\<lparr> webhook_logs := ls \<rparr>) p") auto
  obtain res' st2 where b: "try_block E now st p = (res', st2)"
    by (cases "try_block E now st p") auto
  from try_block_ignores_logs [where E = E and now = now and st = st and ls = ls and p = p] a b
  have eq: "res' = res" "orders st1 = orders st2" by simp_all
  show ?thesis
  proof (cases res)
    case (Inr r)
    with JsonObject a b eq show ?thesis by (simp add: POST_def)
  next
    case (Inl e)
    with JsonObject a b eq show ?thesis
      by (simp add: POST_def catch_block_orders catch_block_response [where st = st1 and st' = st2 and E' = E and now' = now and payload' = "Some p"])
  qed
qed

text \<open>
  C1. An order that takes the day's notional beyond \<open>dailyLimit\<close> is to be denied. It is
  not: the handler never calls \<^verbatim>\<open>checkDailyLimit\<close>. With 12000 filled today under a limit
  of 10000, so that \<^verbatim>\<open>checkDailyLimit\<close> itself reports the limit as used up, a further order
  of notional 3000 is handed to the executor and answered 200.
\<close>

theorem daily_limit_not_enforced:
  "currentUsage (checkDailyLimit stub_env now0 busy_store ''w1'') = Fin 12000
   \<and> usageLimit (checkDailyLimit stub_env now0 busy_store ''w1'') = Fin 10000
   \<and> \<not> withinLimit (checkDailyLimit stub_env now0 busy_store ''w1'')
   \<and> orderValue stub_env (signed (btc_order (JNum (Fin 0.05)))) = Fin 3000
   \<and> dailyLimit (toWebhookConfig btc_webhook) = Fin 10000
   \<and> enabled (toWebhookConfig btc_webhook)
   \<and> http_status (fst (POST stub_env now0 busy_store (JsonObject (signed (btc_order (JNum (Fin 0.05))))))) = 200
   \<and> orders (snd (POST stub_env now0 busy_store (JsonObject (signed (btc_order (JNum (Fin 0.05)))))))
       = [(signed (btc_order (JNum (Fin 0.05))), ''u1'')]"
  by (simp add: checkDailyLimit_def log_notional_def handler_defs fixture_defs crypto_defs store_defs js_defs limiter_defs)

section \<open>Execution records\<close>











section \<open>The rate limiter: what one turn of the loop touches\<close>

lemma window_step_denied_unchanged:
  "window_step uid key now w tbl = (False, tbl') \<Longrightarrow> tbl' = tbl"
  by (auto simp: window_step_def Let_def insert_window_def split: option.splits if_splits)

lemma window_step_frame:
  assumes "\<And>r. P r \<Longrightarrow> \<not> (rl_user_id r = uid \<and> rl_api_key r = key \<and> rl_window_type r = wtype w)"
  shows "filter P (snd (window_step uid key now w tbl)) = filter P tbl"
proof (cases "single (filter (in_window uid key (wtype w) (now - duration w)) tbl)")
  case None
  have "\<not> P \<lparr> rl_user_id = uid, rl_api_key = key, rl_window_type = wtype w,
               window_start = now, request_count = 1 \<rparr>"
    using assms by fastforce
  with None show ?thesis
    by (simp add: window_step_def insert_window_def)
next
  case (Some existing)
  let ?f = "\<lambda>r. if in_window uid key (wtype w) (now - duration w) r
                 then r\<lparr> request_count := request_count existing + 1 \<rparr> else r"
  have "filter P (map ?f tbl) = filter P tbl"
  proof (induction tbl)
    case Nil
    show ?case by simp
  next
    case (Cons r rs)
    show ?case
    proof (cases "in_window uid key (wtype w) (now - duration w) r")
      case True
      then have "\<not> P r" "\<not> P (r\<lparr> request_count := request_count existing + 1 \<rparr>)"
        using assms [of r] assms [of "r\<lparr> request_count := request_count existing + 1 \<rparr>"]
        by (auto simp: in_window_def)
      with True Cons.IH show ?thesis by simp
    next
      case False
      with Cons.IH show ?thesis by simp
    qed
  qed
  with Some show ?thesis
    by (simp add: window_step_def)
qed

lemma window_loop_frame:
  assumes "\<And>r. P r \<Longrightarrow> \<not> (rl_user_id r = uid \<and> rl_api_key r = key \<and> rl_window_type r \<in> wtype ` set ws)"
  shows "filter P (snd (window_loop uid key now ws tbl)) = filter P tbl"
  using assms
proof (induction ws arbitrary: tbl)
  case Nil
  show ?case by simp
next
  case (Cons w ws)
  obtain ok t1 where st: "window_step uid key now w tbl = (ok, t1)"
    by (cases "window_step uid key now w tbl") auto
  have f1: "filter P t1 = filter P tbl"
    using window_step_frame [of P uid key w now tbl] Cons.prems st by auto
  show ?case
  proof (cases ok)
    case False
    with st f1 show ?thesis by simp
  next
    case True
    have "filter P (snd (window_loop uid key now ws t1)) = filter P t1"
      using Cons.prems by (intro Cons.IH) auto
    with True st f1 show ?thesis by simp
  qed
qed

lemma window_loop_append:
  "window_loop uid key now (pre @ rest) tbl =
     (case window_loop uid key now pre tbl of
        (None, t1) \<Rightarrow> window_loop uid key now rest t1
      | (Some j, t1) \<Rightarrow> (Some j, t1))"
proof (induction pre arbitrary: tbl)
  case Nil
  show ?case by simp
next
  case (Cons w pre)
  obtain ok t1 where st: "window_step uid key now w tbl = (ok, t1)"
    by (cases "window_step uid key now w tbl") auto
  show ?case
    using st Cons.IH [of t1] by (cases ok) simp_all
qed

lemma window_loop_Some_mem:
  "fst (window_loop uid key now ws tbl) = Some j \<Longrightarrow> j \<in> wtype ` set ws"
proof (induction ws arbitrary: tbl)
  case Nil
  then show ?case by simp
next
  case (Cons w ws)
  obtain ok t1 where st: "window_step uid key now w tbl = (ok, t1)"
    by (cases "window_step uid key now w tbl") auto
  show ?case
  proof (cases ok)
    case False
    with st Cons.prems show ?thesis by simp
  next
    case True
    with st Cons.prems have "fst (window_loop uid key now ws t1) = Some j" by simp
    then have "j \<in> wtype ` set ws" by (rule Cons.IH)
    then show ?thesis by simp
  qed
qed

lemma windows_split:
  "\<exists>pre post. windows config
       = pre @ \<lparr> wtype = k, duration = duration_of k, limit = limit_of config k \<rparr> # post
     \<and> k \<notin> wtype ` set pre \<and> k \<notin> wtype ` set post
     \<and> (\<forall>j \<in> wtype ` set pre. kind_index j < kind_index k)"
proof (cases k)
  case minute
  have "windows config = [] @ \<lparr> wtype = minute, duration = duration_of minute,
                                 limit = limit_of config minute \<rparr> # tl (windows config)"
    by (simp add: windows_def)
  moreover have "minute \<notin> wtype ` set (tl (windows config))"
    by (simp add: windows_def)
  ultimately show ?thesis
    unfolding minute by (intro exI [of _ "[]"] exI [of _ "tl (windows config)"]) simp
next
  case hour
  have "windows config = [hd (windows config)] @ \<lparr> wtype = hour, duration = duration_of hour,
                                 limit = limit_of config hour \<rparr> # tl (tl (windows config))"
    by (simp add: windows_def)
  moreover have "hour \<notin> wtype ` set [hd (windows config)]" "hour \<notin> wtype ` set (tl (tl (windows config)))"
     "\<forall>j \<in> wtype ` set [hd (windows config)]. kind_index j < kind_index hour"
    by (simp_all add: windows_def)
  ultimately show ?thesis
    unfolding hour
    by (intro exI [of _ "[hd (windows config)]"] exI [of _ "tl (tl (windows config))"]) blast
next
  case day
  have "windows config = butlast (windows config) @ \<lparr> wtype = day, duration = duration_of day,
                                 limit = limit_of config day \<rparr> # []"
    by (simp add: windows_def)
  moreover have "day \<notin> wtype ` set (butlast (windows config))"
     "\<forall>j \<in> wtype ` set (butlast (windows config)). kind_index j < kind_index day"
    by (simp_all add: windows_def)
  ultimately show ?thesis
    unfolding day
    by (intro exI [of _ "butlast (windows config)"] exI [of _ "[]"]) simp
qed

lemma window_loop_denied_at:
  assumes "window_loop uid key now (windows config) tbl = (Some k, tbl')"
  shows "\<exists>pre. (\<forall>j \<in> wtype ` set pre. kind_index j < kind_index k)
               \<and> tbl' = snd (window_loop uid key now pre tbl)"
proof -
  from windows_split [of config k] obtain pre post where
    sp: "windows config = pre @ \<lparr> wtype = k, duration = duration_of k, limit = limit_of config k \<rparr> # post"
    and npre: "k \<notin> wtype ` set pre" and npost: "k \<notin> wtype ` set post"
    and lt: "\<forall>j \<in> wtype ` set pre. kind_index j < kind_index k"
    by blast
  let ?w = "\<lparr> wtype = k, duration = duration_of k, limit = limit_of config k \<rparr>"
  obtain v1 t1 where l1: "window_loop uid key now pre tbl = (v1, t1)"
    by (cases "window_loop uid key now pre tbl") auto
  have v1: "v1 = None"
  proof (cases v1)
    case None
    then show ?thesis .
  next
    case (Some j)
    with l1 have "j \<in> wtype ` set pre"
      using window_loop_Some_mem [of uid key now pre tbl j] by simp
    moreover from assms sp l1 Some have "j = k"
      by (simp add: window_loop_append)
    ultimately show ?thesis using npre by simp
  qed
  with assms sp l1 have l2: "window_loop uid key now (?w # post) t1 = (Some k, tbl')"
    by (simp add: window_loop_append)
  obtain ok t2 where st: "window_step uid key now ?w t1 = (ok, t2)"
    by (cases "window_step uid key now ?w t1") auto
  have "\<not> ok"
  proof
    assume ok
    with l2 st have "window_loop uid key now post t2 = (Some k, tbl')" by simp
    then have "k \<in> wtype ` set post"
      using window_loop_Some_mem [of uid key now post t2 k] by simp
    with npost show False by simp
  qed
  with l2 st have "tbl' = t2" by simp
  moreover from st \<open>\<not> ok\<close> have "t2 = t1"
    using window_step_denied_unchanged [of uid key now ?w t1 t2] by simp
  ultimately have "tbl' = snd (window_loop uid key now pre tbl)"
    using l1 by simp
  with lt show ?thesis by blast
qed

text \<open>
  C5, as amended. When \<^verbatim>\<open>checkRateLimit\<close> returns \<open>false\<close> because the window of kind \<open>k\<close> has
  reached its limit, the rows of kind \<open>k\<close> and of the kinds the loop takes after \<open>k\<close> are as
  they were, and so are the rows of every other (account, credential) pair: the only rows
  that the call may have changed or added are rows of this pair whose kind the loop takes
  before \<open>k\<close>. A denial by the minute window, the first one, leaves the whole table
  unchanged.
\<close>

theorem denial_leaves_later_windows_unchanged:
  assumes "checkRateLimit uid key config now tbl = (False, tbl')"
  shows "\<exists>k. exceeded_window uid key config now tbl = Some k
           \<and> filter (\<lambda>r. kind_index k \<le> kind_index (rl_window_type r)) tbl'
               = filter (\<lambda>r. kind_index k \<le> kind_index (rl_window_type r)) tbl
           \<and> filter (\<lambda>r. \<not> (rl_user_id r = uid \<and> rl_api_key r = key)) tbl'
               = filter (\<lambda>r. \<not> (rl_user_id r = uid \<and> rl_api_key r = key)) tbl
           \<and> (k = minute \<longrightarrow> tbl' = tbl)"
proof -
  from assms obtain k where l: "window_loop uid key now (windows config) tbl = (Some k, tbl')"
    by (auto simp: checkRateLimit_def split: prod.splits option.splits)
  then have ex: "exceeded_window uid key config now tbl = Some k"
    by (simp add: exceeded_window_def)
  from window_loop_denied_at [OF l] obtain pre where
    lt: "\<forall>j \<in> wtype ` set pre. kind_index j < kind_index k"
    and t: "tbl' = snd (window_loop uid key now pre tbl)"
    by blast
  have a: "filter (\<lambda>r. kind_index k \<le> kind_index (rl_window_type r)) tbl'
             = filter (\<lambda>r. kind_index k \<le> kind_index (rl_window_type r)) tbl"
    unfolding t using lt by (intro window_loop_frame) force
  have b: "filter (\<lambda>r. \<not> (rl_user_id r = uid \<and> rl_api_key r = key)) tbl'
             = filter (\<lambda>r. \<not> (rl_user_id r = uid \<and> rl_api_key r = key)) tbl"
    unfolding t by (intro window_loop_frame) blast
  have c: "k = minute \<longrightarrow> tbl' = tbl"
  proof
    assume "k = minute"
    with a show "tbl' = tbl" by simp
  qed
  from ex a b c show ?thesis by blast
qed

theorem denial_leaves_later_windows_unchanged_witness:
  "checkRateLimit ''u1'' ''K'' DEFAULT_RATE_LIMITS now0 hour_full
     = (False, [rate_row minute (now0 - 1000) 4, rate_row hour (now0 - 1800000) 100,
                rate_row day (now0 - 1800000) 100])
   \<and> filter (\<lambda>r. kind_index hour \<le> kind_index (rl_window_type r))
        [rate_row minute (now0 - 1000) 4, rate_row hour (now0 - 1800000) 100,
         rate_row day (now0 - 1800000) 100]
     = filter (\<lambda>r. kind_index hour \<le> kind_index (rl_window_type r)) hour_full"
proof -
  have h: "checkRateLimit ''u1'' ''K'' DEFAULT_RATE_LIMITS now0 hour_full
     = (False, [rate_row minute (now0 - 1000) 4, rate_row hour (now0 - 1800000) 100,
                rate_row day (now0 - 1800000) 100])"
    by (simp add: limiter_defs single_def fixture_defs)
  have e: "exceeded_window ''u1'' ''K'' DEFAULT_RATE_LIMITS now0 hour_full = Some hour"
    by (simp add: exceeded_window_def limiter_defs single_def fixture_defs)
  from denial_leaves_later_windows_unchanged [OF h] e h
  show ?thesis by auto
qed

text \<open>
  The claim as it was stated fails: with the hour window at its limit and the minute window
  below its own, the call is denied and has already incremented the minute window.
\<close>

theorem partial_increment_counterexample:
  "checkRateLimit ''u1'' ''K'' DEFAULT_RATE_LIMITS now0 hour_full
     = (False, [rate_row minute (now0 - 1000) 4, rate_row hour (now0 - 1800000) 100,
                rate_row day (now0 - 1800000) 100])
   \<and> exceeded_window ''u1'' ''K'' DEFAULT_RATE_LIMITS now0 hour_full = Some hour
   \<and> snd (checkRateLimit ''u1'' ''K'' DEFAULT_RATE_LIMITS now0 hour_full) \<noteq> hour_full"
  by (simp add: exceeded_window_def limiter_defs single_def fixture_defs)

section \<open>The rate limiter: counting within one window\<close>

lemma filter_narrow:
  assumes "filter P xs = ys" and "\<And>x. P' x \<Longrightarrow> P x"
  shows "filter P' xs = filter P' ys"
proof -
  have "filter P' xs = filter (\<lambda>x. P x \<and> P' x) xs"
    using assms(2) by (intro filter_cong) auto
  also have "\<dots> = filter P' (filter P xs)"
    by simp
  finally show ?thesis using assms(1) by simp
qed

lemma in_window_earlier:
  "s0 \<le> s \<Longrightarrow> in_window uid key k s r \<Longrightarrow> in_window uid key k s0 r"
  by (simp add: in_window_def)

lemma window_step_new:
  assumes "filter (in_window uid key k s0) tbl = []" and "s0 \<le> now - d" and "0 \<le> d"
  shows "window_step uid key now \<lparr> wtype = k, duration = d, limit = L \<rparr> tbl
           = (True, tbl @ [\<lparr> rl_user_id = uid, rl_api_key = key, rl_window_type = k,
                              window_start = now, request_count = 1 \<rparr>])"
proof -
  have a: "filter (in_window uid key k (now - d)) tbl = []"
    using filter_narrow [OF assms(1), of "in_window uid key k (now - d)"] assms(2)
    by (simp add: in_window_earlier)
  have "\<forall>r \<in> set tbl. \<not> in_window uid key k s0 r"
    using assms(1) by (simp add: filter_empty_conv)
  then have "\<forall>r \<in> set tbl. \<not> (rl_user_id r = uid \<and> rl_api_key r = key \<and> rl_window_type r = k
                                \<and> window_start r = now)"
    using assms(2,3) by (auto simp: in_window_def)
  then have b: "\<not> list_ex (\<lambda>r. rl_user_id r = uid \<and> rl_api_key r = key \<and> rl_window_type r = k
                               \<and> window_start r = now) tbl"
    by (simp add: list_ex_iff)
  show ?thesis
    using a b by (simp add: window_step_def single_def insert_window_def)
qed

lemma window_step_existing:
  assumes "filter (in_window uid key k s0) tbl = [r]" and "s0 \<le> now - d"
    and "now - d \<le> window_start r"
  shows "window_step uid key now \<lparr> wtype = k, duration = d, limit = L \<rparr> tbl
           = (if L \<le> request_count r then (False, tbl)
              else (True, map (\<lambda>x. if in_window uid key k (now - d) x
                                    then x\<lparr> request_count := request_count r + 1 \<rparr> else x) tbl))"
proof -
  have "r \<in> set (filter (in_window uid key k s0) tbl)"
    using assms(1) by simp
  then have "in_window uid key k s0 r" by simp
  then have r: "in_window uid key k (now - d) r"
    using assms(3) by (simp add: in_window_def)
  have "filter (in_window uid key k (now - d)) tbl = filter (in_window uid key k (now - d)) [r]"
    using filter_narrow [OF assms(1), of "in_window uid key k (now - d)"] assms(2)
    by (simp add: in_window_earlier)
  then have "filter (in_window uid key k (now - d)) tbl = [r]"
    using r by simp
  then show ?thesis
    by (simp add: window_step_def single_def)
qed

lemma filter_in_window_update:
  "filter (in_window uid key k s0)
     (map (\<lambda>x. if c x then x\<lparr> request_count := n \<rparr> else x) tbl)
   = map (\<lambda>x. if c x then x\<lparr> request_count := n \<rparr> else x) (filter (in_window uid key k s0) tbl)"
  by (induction tbl) (auto simp: in_window_def)

text \<open>
  One call, seen from the windows of one kind \<open>k\<close>, when no other kind denies it: the
  turns before the one of \<open>k\<close> pass and leave the rows of \<open>k\<close> alone, and so do the turns
  after it.
\<close>

lemma call_decompose:
  assumes "window_loop uid key now (windows config) tbl = (v, tbl')"
    and "v = None \<or> v = Some k"
  shows "\<exists>t1 ok t2.
           filter (in_window uid key k s0) t1 = filter (in_window uid key k s0) tbl
           \<and> window_step uid key now
                \<lparr> wtype = k, duration = duration_of k, limit = limit_of config k \<rparr> t1 = (ok, t2)
           \<and> (if ok then v = None \<and> filter (in_window uid key k s0) tbl' = filter (in_window uid key k s0) t2
               else v = Some k \<and> tbl' = t2)"
proof -
  let ?Q = "in_window uid key k s0"
  let ?w = "\<lparr> wtype = k, duration = duration_of k, limit = limit_of config k \<rparr>"
  from windows_split [of config k] obtain pre post where
    sp: "windows config = pre @ ?w # post"
    and npre: "k \<notin> wtype ` set pre" and npost: "k \<notin> wtype ` set post"
    by blast
  obtain v1 t1 where l1: "window_loop uid key now pre tbl = (v1, t1)"
    by (cases "window_loop uid key now pre tbl") auto
  have v1: "v1 = None"
  proof (cases v1)
    case None
    then show ?thesis .
  next
    case (Some j)
    with l1 have "j \<in> wtype ` set pre"
      using window_loop_Some_mem [of uid key now pre tbl j] by simp
    moreover from assms(1) sp l1 Some have "v = Some j"
      by (simp add: window_loop_append)
    ultimately show ?thesis using npre assms(2) by auto
  qed
  have f1: "filter ?Q t1 = filter ?Q tbl"
  proof -
    have "filter ?Q (snd (window_loop uid key now pre tbl)) = filter ?Q tbl"
      using npre by (intro window_loop_frame) (auto simp: in_window_def)
    with l1 show ?thesis by simp
  qed
  from assms(1) sp l1 v1 have l2: "window_loop uid key now (?w # post) t1 = (v, tbl')"
    by (simp add: window_loop_append)
  obtain ok t2 where st: "window_step uid key now ?w t1 = (ok, t2)"
    by (cases "window_step uid key now ?w t1") auto
  show ?thesis
  proof (cases ok)
    case False
    with l2 st have "v = Some k" "tbl' = t2" by simp_all
    with f1 st False show ?thesis by auto
  next
    case True
    with l2 st have l3: "window_loop uid key now post t2 = (v, tbl')" by simp
    have "v \<noteq> Some k"
    proof
      assume "v = Some k"
      with l3 have "k \<in> wtype ` set post"
        using window_loop_Some_mem [of uid key now post t2 k] by simp
      with npost show False by simp
    qed
    with assms(2) have vn: "v = None" by simp
    have "filter ?Q (snd (window_loop uid key now post t2)) = filter ?Q t2"
      using npost by (intro window_loop_frame) (auto simp: in_window_def)
    with l3 have "filter ?Q tbl' = filter ?Q t2" by simp
    with vn f1 st True show ?thesis by auto
  qed
qed

lemma duration_of_nonneg: "0 \<le> duration_of k"
  by (cases k) simp_all

lemma call_new_window:
  assumes "window_loop uid key now (windows config) tbl = (v, tbl')"
    and "v = None \<or> v = Some k"
    and "filter (in_window uid key k s0) tbl = []" and "s0 \<le> now - duration_of k"
  shows "v = None \<and> filter (in_window uid key k s0) tbl'
           = [\<lparr> rl_user_id = uid, rl_api_key = key, rl_window_type = k,
                window_start = now, request_count = 1 \<rparr>]"
proof -
  let ?Q = "in_window uid key k s0"
  let ?w = "\<lparr> wtype = k, duration = duration_of k, limit = limit_of config k \<rparr>"
  let ?new = "\<lparr> rl_user_id = uid, rl_api_key = key, rl_window_type = k,
                window_start = now, request_count = 1 \<rparr>"
  from call_decompose [OF assms(1,2), of s0] obtain t1 ok t2 where
    f1: "filter ?Q t1 = filter ?Q tbl"
    and st: "window_step uid key now ?w t1 = (ok, t2)"
    and res: "if ok then v = None \<and> filter ?Q tbl' = filter ?Q t2 else v = Some k \<and> tbl' = t2"
    by blast
  have e: "filter ?Q t1 = []" using f1 assms(3) by simp
  have "window_step uid key now ?w t1 = (True, t1 @ [?new])"
    using e assms(4) duration_of_nonneg by (rule window_step_new)
  with st have ok: "ok" and t2: "t2 = t1 @ [?new]" by simp_all
  have "?Q ?new"
    using assms(4) duration_of_nonneg [of k] by (simp add: in_window_def)
  then have "filter ?Q t2 = [?new]"
    using t2 e by simp
  with res ok show ?thesis by simp
qed

lemma call_existing_window:
  assumes "window_loop uid key now (windows config) tbl = (v, tbl')"
    and "v = None \<or> v = Some k"
    and "filter (in_window uid key k s0) tbl = [r]" and "s0 \<le> now - duration_of k"
    and "now - duration_of k \<le> window_start r"
  shows "if limit_of config k \<le> request_count r
         then v = Some k \<and> filter (in_window uid key k s0) tbl' = [r]
         else v = None \<and> filter (in_window uid key k s0) tbl'
                = [r\<lparr> request_count := request_count r + 1 \<rparr>]"
proof -
  let ?Q = "in_window uid key k s0"
  let ?w = "\<lparr> wtype = k, duration = duration_of k, limit = limit_of config k \<rparr>"
  let ?f = "\<lambda>x. if in_window uid key k (now - duration_of k) x
                 then x\<lparr> request_count := request_count r + 1 \<rparr> else x"
  from call_decompose [OF assms(1,2), of s0] obtain t1 ok t2 where
    f1: "filter ?Q t1 = filter ?Q tbl"
    and st: "window_step uid key now ?w t1 = (ok, t2)"
    and res: "if ok then v = None \<and> filter ?Q tbl' = filter ?Q t2 else v = Some k \<and> tbl' = t2"
    by blast
  have e: "filter ?Q t1 = [r]" using f1 assms(3) by simp
  have "r \<in> set (filter ?Q t1)" using e by simp
  then have "?Q r" by simp
  then have act: "in_window uid key k (now - duration_of k) r"
    using assms(5) by (simp add: in_window_def)
  have step: "window_step uid key now ?w t1
          = (if limit_of config k \<le> request_count r then (False, t1) else (True, map ?f t1))"
    using e assms(4,5) by (rule window_step_existing)
  show ?thesis
  proof (cases "limit_of config k \<le> request_count r")
    case True
    with step st have "\<not> ok" "t2 = t1" by simp_all
    with res e True show ?thesis by simp
  next
    case False
    with step st have ok: "ok" and t2: "t2 = map ?f t1" by simp_all
    have "filter ?Q t2 = map ?f (filter ?Q t1)"
      unfolding t2 by (rule filter_in_window_update)
    then have "filter ?Q t2 = [r\<lparr> request_count := request_count r + 1 \<rparr>]"
      using e act by simp
    with res ok False show ?thesis by simp
  qed
qed

lemma checkRateLimit_window_loop:
  "fst (checkRateLimit uid key config now tbl) = (exceeded_window uid key config now tbl = None)
   \<and> snd (checkRateLimit uid key config now tbl) = snd (window_loop uid key now (windows config) tbl)"
  by (simp add: checkRateLimit_def exceeded_window_def split: prod.splits option.splits)

lemma run_in_open_window:
  assumes "filter (in_window uid key k (t1 - duration_of k)) tbl = [r]"
    and "window_start r = t1"
    and "\<forall>t \<in> set ts. t1 \<le> t \<and> t \<le> t1 + duration_of k"
    and "\<forall>v \<in> set (run_calls uid key config ts tbl). snd v = None \<or> snd v = Some k"
  shows "\<forall>i < length ts. fst (run_calls uid key config ts tbl ! i)
                          = (request_count r + int i < limit_of config k)"
  using assms
proof (induction ts arbitrary: tbl r)
  case Nil
  show ?case by simp
next
  case (Cons t ts)
  let ?Q = "in_window uid key k (t1 - duration_of k)"
  obtain v tbl' where l: "window_loop uid key t (windows config) tbl = (v, tbl')"
    by (cases "window_loop uid key t (windows config) tbl") auto
  have ex: "exceeded_window uid key config t tbl = v"
    using l by (simp add: exceeded_window_def)
  have rest: "snd (checkRateLimit uid key config t tbl) = tbl'"
    using l by (simp add: checkRateLimit_window_loop)
  have ok: "fst (checkRateLimit uid key config t tbl) = (v = None)"
    using ex by (simp add: checkRateLimit_window_loop)
  have vk: "v = None \<or> v = Some k"
    using Cons.prems(4) ex by simp
  have t: "t1 \<le> t" "t \<le> t1 + duration_of k"
    using Cons.prems(3) by simp_all
  have s0: "t1 - duration_of k \<le> t - duration_of k" and act: "t - duration_of k \<le> window_start r"
    using t Cons.prems(2) by simp_all
  note eff = call_existing_window [OF l vk Cons.prems(1) s0 act]
  have later: "\<forall>t \<in> set ts. t1 \<le> t \<and> t \<le> t1 + duration_of k"
    using Cons.prems(3) by simp
  have others: "\<forall>v \<in> set (run_calls uid key config ts tbl'). snd v = None \<or> snd v = Some k"
    using Cons.prems(4) rest by simp
  show ?case
  proof (cases "limit_of config k \<le> request_count r")
    case True
    with eff have v: "v = Some k" and f: "filter ?Q tbl' = [r]" by simp_all
    note IH = Cons.IH [OF f Cons.prems(2) later others]
    show ?thesis
    proof (intro allI impI)
      fix i assume i: "i < length (t # ts)"
      show "fst (run_calls uid key config (t # ts) tbl ! i)
              = (request_count r + int i < limit_of config k)"
      proof (cases i)
        case 0
        with ok v True show ?thesis by simp
      next
        case (Suc j)
        with i have "j < length ts" by simp
        with IH have "fst (run_calls uid key config ts tbl' ! j)
                        = (request_count r + int j < limit_of config k)" by simp
        with Suc rest True show ?thesis by simp
      qed
    qed
  next
    case False
    with eff have v: "v = None"
      and f: "filter ?Q tbl' = [r\<lparr> request_count := request_count r + 1 \<rparr>]" by simp_all
    have ws: "window_start (r\<lparr> request_count := request_count r + 1 \<rparr>) = t1"
      using Cons.prems(2) by simp
    note IH = Cons.IH [OF f ws later others]
    show ?thesis
    proof (intro allI impI)
      fix i assume i: "i < length (t # ts)"
      show "fst (run_calls uid key config (t # ts) tbl ! i)
              = (request_count r + int i < limit_of config k)"
      proof (cases i)
        case 0
        with ok v False show ?thesis by simp
      next
        case (Suc j)
        with i have "j < length ts" by simp
        with IH have "fst (run_calls uid key config ts tbl' ! j)
                        = (request_count r + 1 + int j < limit_of config k)" by simp
        with Suc rest show ?thesis by (simp add: add.commute add.left_commute)
      qed
    qed
  qed
qed

text \<open>
  Runs of calls on an empty table: eleven calls within one minute at the default limits, and
  calls spread over an hour and over a day at small limits.
\<close>

lemma run_minute:
  "run_calls ''u1'' ''K'' DEFAULT_RATE_LIMITS
      [0, 1000, 2000, 3000, 4000, 5000, 6000, 7000, 8000, 9000, 10000] []
   = [(True, None), (True, None), (True, None), (True, None), (True, None), (True, None),
      (True, None), (True, None), (True, None), (True, None), (False, Some minute)]"
  by (simp add: exceeded_window_def limiter_defs single_def)

lemma run_hour:
  "run_calls ''u1'' ''K'' small_limits [0, 61000, 122000, 183000] []
   = [(True, None), (True, None), (True, None), (False, Some hour)]"
  by (simp add: exceeded_window_def limiter_defs single_def small_limits_def)

lemma run_day:
  "run_calls ''u1'' ''K'' small_limits [0, 3700000, 7400000, 11100000, 14800000] []
   = [(True, None), (True, None), (True, None), (True, None), (False, Some day)]"
  by (simp add: exceeded_window_def limiter_defs single_def small_limits_def)

text \<open>
  At the default limits, 101 calls 35 seconds apart never reach the limit of a minute; the
  first hundred are allowed and the last one is denied by the hour window.
\<close>

lemma run_hour_default:
  "run_calls ''u1'' ''K'' DEFAULT_RATE_LIMITS (map (\<lambda>i. 35000 * int i) [0..<101]) []
     = replicate 100 (True, None) @ [(False, Some hour)]"
  by code_simp

text \<open>
  C4. For each window kind \<open>k\<close>, independently of the other two: take a run of calls
  for one (account, credential) pair that starts when the pair has no active window of
  kind \<open>k\<close> and stays within one window of that kind (every later call is made no more
  than the duration of \<open>k\<close> after the first), and in which no window of another kind
  denies a call. Then the call number \<open>i\<close> (from 0) is allowed exactly when \<open>i\<close> is below
  the limit of \<open>k\<close>: the first \<open>limit k\<close> calls are allowed and every later one is denied.
  The default limits are 10, 100 and 1000.
\<close>

theorem rate_limit_allows_exactly_limit_calls:
  assumes "filter (in_window uid key k (t1 - duration_of k)) tbl = []"
    and "\<forall>t \<in> set ts. t1 \<le> t \<and> t \<le> t1 + duration_of k"
    and "\<forall>v \<in> set (run_calls uid key config (t1 # ts) tbl). snd v = None \<or> snd v = Some k"
    and "1 \<le> limit_of config k"
  shows "(\<forall>i < length (t1 # ts). fst (run_calls uid key config (t1 # ts) tbl ! i)
                                  = (int i < limit_of config k))
         \<and> limit_of DEFAULT_RATE_LIMITS minute = 10
         \<and> limit_of DEFAULT_RATE_LIMITS hour = 100
         \<and> limit_of DEFAULT_RATE_LIMITS day = 1000"
proof -
  let ?Q = "in_window uid key k (t1 - duration_of k)"
  let ?new = "\<lparr> rl_user_id = uid, rl_api_key = key, rl_window_type = k,
                window_start = t1, request_count = 1 \<rparr>"
  obtain v tbl' where l: "window_loop uid key t1 (windows config) tbl = (v, tbl')"
    by (cases "window_loop uid key t1 (windows config) tbl") auto
  have ex: "exceeded_window uid key config t1 tbl = v"
    using l by (simp add: exceeded_window_def)
  have rest: "snd (checkRateLimit uid key config t1 tbl) = tbl'"
    using l by (simp add: checkRateLimit_window_loop)
  have ok: "fst (checkRateLimit uid key config t1 tbl) = (v = None)"
    using ex by (simp add: checkRateLimit_window_loop)
  have vk: "v = None \<or> v = Some k"
    using assms(3) ex by simp
  from call_new_window [OF l vk assms(1)] have v: "v = None" and f: "filter ?Q tbl' = [?new]"
    by simp_all
  have others: "\<forall>v \<in> set (run_calls uid key config ts tbl'). snd v = None \<or> snd v = Some k"
    using assms(3) rest by simp
  have ws: "window_start ?new = t1" by simp
  note run = run_in_open_window [OF f ws assms(2) others]
  have "\<forall>i < length (t1 # ts). fst (run_calls uid key config (t1 # ts) tbl ! i)
                                  = (int i < limit_of config k)"
  proof (intro allI impI)
    fix i assume i: "i < length (t1 # ts)"
    show "fst (run_calls uid key config (t1 # ts) tbl ! i) = (int i < limit_of config k)"
    proof (cases i)
      case 0
      with ok v assms(4) show ?thesis by simp
    next
      case (Suc j)
      with i have "j < length ts" by simp
      with run have "fst (run_calls uid key config ts tbl' ! j) = (1 + int j < limit_of config k)"
        by simp
      with Suc rest show ?thesis by (simp add: add.commute)
    qed
  qed
  then show ?thesis
    by (simp add: DEFAULT_RATE_LIMITS_def)
qed

theorem rate_limit_allows_exactly_limit_calls_witness:
  "filter (in_window ''u1'' ''K'' minute (0 - duration_of minute)) [] = []
   \<and> list_all (\<lambda>t. 0 \<le> t \<and> t \<le> 0 + duration_of minute)
        [1000, 2000, 3000, 4000, 5000, 6000, 7000, 8000, 9000, 10000]
   \<and> list_all (\<lambda>v. snd v = None \<or> snd v = Some minute)
        (run_calls ''u1'' ''K'' DEFAULT_RATE_LIMITS
           [0, 1000, 2000, 3000, 4000, 5000, 6000, 7000, 8000, 9000, 10000] [])
   \<and> 1 \<le> limit_of DEFAULT_RATE_LIMITS minute
   \<and> fst (run_calls ''u1'' ''K'' DEFAULT_RATE_LIMITS
             [0, 1000, 2000, 3000, 4000, 5000, 6000, 7000, 8000, 9000, 10000] [] ! 9)
   \<and> \<not> fst (run_calls ''u1'' ''K'' DEFAULT_RATE_LIMITS
               [0, 1000, 2000, 3000, 4000, 5000, 6000, 7000, 8000, 9000, 10000] [] ! 10)
   \<and> list_all (\<lambda>t. 0 \<le> t \<and> t \<le> 0 + duration_of hour) [61000, 122000, 183000]
   \<and> list_all (\<lambda>v. snd v = None \<or> snd v = Some hour)
        (run_calls ''u1'' ''K'' small_limits [0, 61000, 122000, 183000] [])
   \<and> fst (run_calls ''u1'' ''K'' small_limits [0, 61000, 122000, 183000] [] ! 2)
   \<and> \<not> fst (run_calls ''u1'' ''K'' small_limits [0, 61000, 122000, 183000] [] ! 3)
   \<and> list_all (\<lambda>t. 0 \<le> t \<and> t \<le> 0 + duration_of day) [3700000, 7400000, 11100000, 14800000]
   \<and> list_all (\<lambda>v. snd v = None \<or> snd v = Some day)
        (run_calls ''u1'' ''K'' small_limits [0, 3700000, 7400000, 11100000, 14800000] [])
   \<and> fst (run_calls ''u1'' ''K'' small_limits [0, 3700000, 7400000, 11100000, 14800000] [] ! 3)
   \<and> \<not> fst (run_calls ''u1'' ''K'' small_limits [0, 3700000, 7400000, 11100000, 14800000] [] ! 4)"
proof -
  let ?tm = "[1000, 2000, 3000, 4000, 5000, 6000, 7000, 8000, 9000, 10000] :: int list"
  let ?th = "[61000, 122000, 183000] :: int list"
  let ?td = "[3700000, 7400000, 11100000, 14800000] :: int list"
  have e: "\<And>k. filter (in_window ''u1'' ''K'' k (0 - duration_of k)) [] = []" by simp
  have m2: "list_all (\<lambda>t. 0 \<le> t \<and> t \<le> 0 + duration_of minute) ?tm" by simp
  have m3: "list_all (\<lambda>v. snd v = None \<or> snd v = Some minute)
              (run_calls ''u1'' ''K'' DEFAULT_RATE_LIMITS (0 # ?tm) [])"
    unfolding run_minute by simp
  have m4: "1 \<le> limit_of DEFAULT_RATE_LIMITS minute" by (simp add: DEFAULT_RATE_LIMITS_def)
  have h2: "list_all (\<lambda>t. 0 \<le> t \<and> t \<le> 0 + duration_of hour) ?th" by simp
  have h3: "list_all (\<lambda>v. snd v = None \<or> snd v = Some hour)
              (run_calls ''u1'' ''K'' small_limits (0 # ?th) [])"
    unfolding run_hour by simp
  have h4: "1 \<le> limit_of small_limits hour" by (simp add: small_limits_def)
  have d2: "list_all (\<lambda>t. 0 \<le> t \<and> t \<le> 0 + duration_of day) ?td" by simp
  have d3: "list_all (\<lambda>v. snd v = None \<or> snd v = Some day)
              (run_calls ''u1'' ''K'' small_limits (0 # ?td) [])"
    unfolding run_day by simp
  have d4: "1 \<le> limit_of small_limits day" by (simp add: small_limits_def)
  note M = rate_limit_allows_exactly_limit_calls
             [OF e m2 [unfolded list_all_iff] m3 [unfolded list_all_iff] m4, THEN conjunct1, rule_format]
  note H = rate_limit_allows_exactly_limit_calls
             [OF e h2 [unfolded list_all_iff] h3 [unfolded list_all_iff] h4, THEN conjunct1, rule_format]
  note D = rate_limit_allows_exactly_limit_calls
             [OF e d2 [unfolded list_all_iff] d3 [unfolded list_all_iff] d4, THEN conjunct1, rule_format]
  have m9: "fst (run_calls ''u1'' ''K'' DEFAULT_RATE_LIMITS (0 # ?tm) [] ! 9)"
    using M [of 9] by (simp add: DEFAULT_RATE_LIMITS_def del: run_calls.simps)
  have m10: "\<not> fst (run_calls ''u1'' ''K'' DEFAULT_RATE_LIMITS (0 # ?tm) [] ! 10)"
    using M [of 10] by (simp add: DEFAULT_RATE_LIMITS_def del: run_calls.simps)
  have h2': "fst (run_calls ''u1'' ''K'' small_limits (0 # ?th) [] ! 2)"
    using H [of 2] by (simp add: small_limits_def del: run_calls.simps)
  have h3': "\<not> fst (run_calls ''u1'' ''K'' small_limits (0 # ?th) [] ! 3)"
    using H [of 3] by (simp add: small_limits_def del: run_calls.simps)
  have d3': "fst (run_calls ''u1'' ''K'' small_limits (0 # ?td) [] ! 3)"
    using D [of 3] by (simp add: small_limits_def del: run_calls.simps)
  have d4': "\<not> fst (run_calls ''u1'' ''K'' small_limits (0 # ?td) [] ! 4)"
    using D [of 4] by (simp add: small_limits_def del: run_calls.simps)
  from e [of minute] m2 m3 m4 m9 m10 h2 h3 h2' h3' d2 d3 d3' d4'
  show ?thesis by blast
qed

end
